theory Spec2Isabelle
  imports Complex_Main "HOL-Library.Sublist"
begin

section \<open>FreeStyle HID protocol and Abbott FreeStyle Neo driver\<close>

text \<open>
  A shallow embedding of \<^verbatim>\<open>example/lib/drivers/abbott/abbottFreeStyleNeoMobile.js\<close>
  (class \<^verbatim>\<open>AbbottFreeStyleNeoMobile\<close>) and of the protocol class
  \<^verbatim>\<open>FreeStyleProtocolMobile\<close> it drives.  JavaScript arrays of numbers are lists of
  naturals or integers, strings are lists of 8-bit code units, \<^verbatim>\<open>null\<close> and
  \<^verbatim>\<open>undefined\<close> are \<open>None\<close>, a thrown exception or a rejected promise is the left
  injection of a sum.
\<close>

subsection \<open>Configuration constants\<close>

definition FRAME_SIZE :: nat where "FRAME_SIZE = 64"
definition TIMEOUT :: nat where "TIMEOUT = 5000"
definition MAX_RETRIES :: nat where "MAX_RETRIES = 3"
definition RETRY_DELAY :: nat where "RETRY_DELAY = 1000"

text \<open>\<^verbatim>\<open>INIT_SEQUENCE\<close>: the \<^verbatim>\<open>command\<close> fields, in the order of the array.\<close>

definition INIT_SEQUENCE :: "nat list" where
  "INIT_SEQUENCE = [0x04, 0x05, 0x15, 0x01, 0x00]"

subsection \<open>Frame codec\<close>

text \<open>
  \<^verbatim>\<open>createHIDFrame(command, data = null)\<close>: an array of 64 zeros, the command at index 0;
  when data is given and non-empty its length at index 1 and, for
  \<^verbatim>\<open>i < Math.min(data.length, FRAME_SIZE - 2)\<close>, \<^verbatim>\<open>frame[2 + i] = data[i]\<close>.
  Array elements are JavaScript numbers: nothing reduces them modulo 256.
\<close>

definition copy_payload :: "nat list \<Rightarrow> nat \<Rightarrow> nat list \<Rightarrow> nat list" where
  "copy_payload d bound frame = fold (\<lambda>i f. f[2 + i := d ! i]) [0..<bound] frame"

definition createHIDFrame :: "nat \<Rightarrow> nat list option \<Rightarrow> nat list" where
  "createHIDFrame command data =
     (let frame = (replicate FRAME_SIZE 0)[0 := command]
      in case data of
           None \<Rightarrow> frame
         | Some d \<Rightarrow>
             if length d > 0
             then copy_payload d (min (length d) (FRAME_SIZE - 2)) (frame[1 := length d])
             else frame)"

text \<open>
  \<^verbatim>\<open>createTextCommandFrame(command)\<close>: opcode 0x21, the number of characters of the
  command at index 1, the character codes copied while
  \<^verbatim>\<open>i < commandBytes.length && i < FRAME_SIZE - 2\<close>.
\<close>

definition createTextCommandFrame :: "string \<Rightarrow> nat list" where
  "createTextCommandFrame command =
     (let commandBytes = map of_char command;
          frame = (replicate FRAME_SIZE 0)[0 := 0x21];
          frame = frame[1 := length commandBytes]
      in copy_payload commandBytes (min (length commandBytes) (FRAME_SIZE - 2)) frame)"

text \<open>
  The frame builder as the specification words it, for comparison with the code:
  a payload of more than 62 bytes is an error.
\<close>

datatype frame_error = ValueError

definition buildControlFrame_spec :: "nat \<Rightarrow> nat list \<Rightarrow> frame_error + nat list" where
  "buildControlFrame_spec opCode payload =
     (if length payload > 62 then Inl ValueError
      else Inr (opCode # length payload # payload @ replicate (62 - length payload) 0))"

subsection \<open>JavaScript strings and numbers\<close>

definition CR :: char where "CR = CHR 0x0D"
definition LF :: char where "LF = CHR 0x0A"
definition CRLF :: string where "CRLF = [CR, LF]"

text \<open>
  The WhiteSpace and LineTerminator code units below 256, which \<^verbatim>\<open>trim\<close> and
  \<^verbatim>\<open>parseInt\<close> skip: TAB, LF, VT, FF, CR, SP and NBSP.
\<close>

definition is_js_space :: "char \<Rightarrow> bool" where
  "is_js_space c = (of_char c \<in> {9, 10, 11, 12, 13, 32, 160 :: nat})"

definition js_trim :: "string \<Rightarrow> string" where
  "js_trim s = rev (dropWhile is_js_space (rev (dropWhile is_js_space s)))"

text \<open>
  \<^verbatim>\<open>String.prototype.split(separator)\<close> with a string separator and no limit: the
  pieces between the successive occurrences of the separator, found from the left;
  with the empty separator, the code units one by one.
\<close>

function split_from :: "string \<Rightarrow> string \<Rightarrow> string \<Rightarrow> string list" where
  "split_from sep acc [] = [rev acc]"
| "split_from sep acc (c # cs) =
     (if sep \<noteq> [] \<and> prefix sep (c # cs)
      then rev acc # split_from sep [] (drop (length sep) (c # cs))
      else split_from sep (c # acc) cs)"
  by pat_completeness auto
termination
  by (relation "measure (\<lambda>(sep, acc, s). length s)") auto

definition js_split :: "string \<Rightarrow> string \<Rightarrow> string list" where
  "js_split sep s = (if sep = [] then map (\<lambda>c. [c]) s else split_from sep [] s)"

text \<open>
  A JavaScript number that such a program computes from \<^verbatim>\<open>parseInt\<close>: an integer,
  or NaN (\<open>None\<close>).  The integers are mathematical ones: the rounding of a double beyond
  \<open>2^53\<close> is not modelled, and no branch of the code below depends on it (the code
  compares with 0, 1, 6, 7 and 9 and tests for NaN).
\<close>

type_synonym js_number = "int option"

definition digit_value :: "char \<Rightarrow> nat option" where
  "digit_value c =
     (let n = of_char c :: nat
      in if 48 \<le> n \<and> n \<le> 57 then Some (n - 48)
         else if 97 \<le> n \<and> n \<le> 122 then Some (n - 87)
         else if 65 \<le> n \<and> n \<le> 90 then Some (n - 55)
         else None)"

definition is_radix_digit :: "nat \<Rightarrow> char \<Rightarrow> bool" where
  "is_radix_digit R c = (case digit_value c of None \<Rightarrow> False | Some v \<Rightarrow> v < R)"

definition digits_to_nat :: "nat \<Rightarrow> string \<Rightarrow> nat" where
  "digits_to_nat R ds =
     foldl (\<lambda>acc c. acc * R + (case digit_value c of None \<Rightarrow> 0 | Some v \<Rightarrow> v)) 0 ds"

text \<open>
  \<^verbatim>\<open>parseInt(string)\<close> with no radix, by the steps of the language definition: skip
  leading white space, read a sign, read a \<^verbatim>\<open>0x\<close> or \<^verbatim>\<open>0X\<close> prefix (radix 16, else
  10), take the longest run of digits of the radix; NaN when that run is empty.
\<close>

definition parseInt :: "string \<Rightarrow> js_number" where
  "parseInt inputString =
     (let S = dropWhile is_js_space inputString;
          sign = (if S \<noteq> [] \<and> hd S = CHR ''-'' then - 1 else 1 :: int);
          S = (if S \<noteq> [] \<and> (hd S = CHR ''+'' \<or> hd S = CHR ''-'') then tl S else S);
          hex = (2 \<le> length S \<and> (take 2 S = ''0x'' \<or> take 2 S = ''0X''));
          R = (if hex then 16 else 10);
          S = (if hex then drop 2 S else S);
          Z = takeWhile (is_radix_digit R) S
      in if Z = [] then None else Some (sign * int (digits_to_nat R Z)))"

text \<open>\<^verbatim>\<open>fields[i]\<close>: \<^verbatim>\<open>undefined\<close> beyond the end of the array.\<close>

definition field_at :: "string list \<Rightarrow> nat \<Rightarrow> string option" where
  "field_at flds i = (if i < length flds then Some (flds ! i) else None)"

text \<open>\<^verbatim>\<open>parseInt(fields[i])\<close>: \<^verbatim>\<open>undefined\<close> is converted to the string "undefined".\<close>

definition parseInt_field :: "string option \<Rightarrow> js_number" where
  "parseInt_field v = (case v of None \<Rightarrow> parseInt ''undefined'' | Some s \<Rightarrow> parseInt s)"

text \<open>\<^verbatim>\<open>x + k\<close> and \<^verbatim>\<open>x || 0\<close> on such numbers.\<close>

definition js_add :: "js_number \<Rightarrow> int \<Rightarrow> js_number" where
  "js_add x k = (case x of None \<Rightarrow> None | Some n \<Rightarrow> Some (n + k))"

definition or_zero :: "js_number \<Rightarrow> js_number" where
  "or_zero x = (case x of None \<Rightarrow> Some 0 | Some n \<Rightarrow> Some n)"

subsection \<open>Errors\<close>

text \<open>
  The language's own TypeError and RangeError, the rejection of a promise of the USB
  module, and one constructor for each \<^verbatim>\<open>throw new Error(...)\<close> of the two classes, in
  the order of the source: in \<^verbatim>\<open>connect\<close> (not connected), \<^verbatim>\<open>connectToDevice\<close> (not
  opened, interface not claimed), the driver's and the protocol's
  \<^verbatim>\<open>initCommunication\<close>, \<^verbatim>\<open>executeInitSequence\<close> (the number of the command, from 1,
  and its code), \<^verbatim>\<open>connect\<close> again (unstable connection), and
  \<^verbatim>\<open>requestTextResponse\<close> (protocol not initialized, the negative count of a write,
  no response).
\<close>

datatype js_error =
    TypeError
  | RangeError
  | Rejected
  | ConnectFailed
  | OpenFailed
  | ClaimFailed
  | ProtocolInitFailed
  | InitSequenceFailed
  | InitCommandFailed nat nat
  | UnstableConnection
  | NotInitialized
  | TextWriteFailed int
  | NoResponse

subsection \<open>Record parser\<close>

text \<open>
  A \<^verbatim>\<open>Date\<close> built by \<^verbatim>\<open>new Date(year, monthIndex, day, hours, minutes, seconds)\<close>
  is kept as its arguments.  \<^verbatim>\<open>toISOString\<close> depends on the host's time zone and is a
  parameter of the parser: \<open>None\<close> when it throws RangeError (an invalid date).
\<close>

record js_date =
  d_year :: js_number
  d_monthIndex :: js_number
  d_day :: js_number
  d_hours :: js_number
  d_minutes :: js_number
  d_seconds :: js_number

record device_info =
  deviceName :: string
  deviceId :: "string option"
  serialNumber :: "string option"

record base_record =
  r_type :: js_number
  r_index :: js_number
  r_timestamp :: js_date
  r_raw :: string

record annotation =
  a_code :: string
  a_value :: string
  a_threshold :: nat

record glucose_record =
  g_index :: js_number
  g_timestamp :: js_date
  g_raw :: string
  g_value :: int
  g_unit :: string
  g_isControlSolution :: bool
  g_annotations :: "annotation list option"
  g_deviceTime :: string
  g_jsDate :: js_date
  g_deviceId :: "string option"
  g_serialNumber :: "string option"

text \<open>The ketone value is a quotient by 18.0, kept as an exact rational.\<close>

record ketone_record =
  k_index :: js_number
  k_timestamp :: js_date
  k_raw :: string
  k_value :: rat
  k_unit :: string
  k_isControlSolution :: bool
  k_annotations :: "annotation list option"
  k_deviceTime :: string
  k_jsDate :: js_date
  k_deviceId :: "string option"
  k_serialNumber :: "string option"

record timechange_record =
  t_index :: js_number
  t_timestamp :: js_date
  t_raw :: string
  t_from :: string
  t_to :: string
  t_agent :: string
  t_valid :: bool
  t_deviceTime :: string
  t_jsDate :: js_date
  t_deviceId :: "string option"
  t_serialNumber :: "string option"

text \<open>
  What \<^verbatim>\<open>parseRecord\<close> can return besides \<^verbatim>\<open>null\<close>: the object with the common fields,
  or one whose \<^verbatim>\<open>type\<close> is 'glucose', 'ketone' or 'timeChange'.
\<close>

datatype parsed_record =
    Unprocessed base_record
  | Glucose glucose_record
  | Ketone ketone_record
  | TimeChange timechange_record

text \<open>
  \<^verbatim>\<open>formatDeviceTime\<close>: the ISO string without its first 'Z'; when \<^verbatim>\<open>toISOString\<close>
  throws, the handler calls it again and that exception leaves the function.
\<close>

definition formatDeviceTime :: "(js_date \<Rightarrow> string option) \<Rightarrow> js_date \<Rightarrow> js_error + string" where
  "formatDeviceTime toISOString timestamp =
     (case toISOString timestamp of
        Some str \<Rightarrow> Inr (remove1 (CHR ''Z'') str)
      | None \<Rightarrow> (case toISOString timestamp of Some str \<Rightarrow> Inr str | None \<Rightarrow> Inl RangeError))"

text \<open>
  \<^verbatim>\<open>processGlucoseRecord\<close>.  Its \<^verbatim>\<open>try\<close> block returns \<^verbatim>\<open>null\<close> on every exception:
  the RangeError of \<^verbatim>\<open>formatDeviceTime\<close> and the TypeError of
  \<^verbatim>\<open>this.deviceInfo.deviceId\<close> when \<^verbatim>\<open>deviceInfo\<close> is \<^verbatim>\<open>null\<close>.
\<close>

definition glucose_value :: "string option \<Rightarrow> (int \<times> annotation list) option" where
  "glucose_value v =
     (if v = Some ''HI''
      then Some (501, [\<lparr>a_code = ''bg/out-of-range'', a_value = ''high'', a_threshold = 500\<rparr>])
      else if v = Some ''LO''
      then Some (19, [\<lparr>a_code = ''bg/out-of-range'', a_value = ''low'', a_threshold = 20\<rparr>])
      else (case parseInt_field v of None \<Rightarrow> None | Some n \<Rightarrow> Some (n, [])))"

definition processGlucoseRecord ::
  "(js_date \<Rightarrow> string option) \<Rightarrow> device_info option \<Rightarrow> string list \<Rightarrow> base_record
   \<Rightarrow> parsed_record option" where
  "processGlucoseRecord toISOString di flds baseRecord =
     (let v = field_at flds 8;
          isControlSolution = (parseInt_field (field_at flds 10) = Some 0)
      in if isControlSolution then None
         else (case glucose_value v of
             None \<Rightarrow> None
           | Some (processedValue, annotations) \<Rightarrow>
               (case formatDeviceTime toISOString (r_timestamp baseRecord) of
                  Inl e \<Rightarrow> None
                | Inr devTime \<Rightarrow>
                    (case di of
                       None \<Rightarrow> None
                     | Some info \<Rightarrow>
                         Some (Glucose
                           \<lparr>g_index = r_index baseRecord,
                            g_timestamp = r_timestamp baseRecord,
                            g_raw = r_raw baseRecord,
                            g_value = processedValue,
                            g_unit = ''mg/dL'',
                            g_isControlSolution = False,
                            g_annotations = (if length annotations > 0 then Some annotations else None),
                            g_deviceTime = devTime,
                            g_jsDate = r_timestamp baseRecord,
                            g_deviceId = deviceId info,
                            g_serialNumber = serialNumber info\<rparr>)))))"

definition ketone_value :: "string option \<Rightarrow> (rat \<times> annotation list) option" where
  "ketone_value v =
     (if v = Some ''HI''
      then Some (8 + 1 / 18, [\<lparr>a_code = ''ketone/out-of-range'', a_value = ''high'', a_threshold = 8\<rparr>])
      else (case parseInt_field v of None \<Rightarrow> None | Some n \<Rightarrow> Some (of_int n / 18, [])))"

definition processKetoneRecord ::
  "(js_date \<Rightarrow> string option) \<Rightarrow> device_info option \<Rightarrow> string list \<Rightarrow> base_record
   \<Rightarrow> parsed_record option" where
  "processKetoneRecord toISOString di flds baseRecord =
     (let v = field_at flds 8;
          isControlSolution = (parseInt_field (field_at flds 9) = Some 0)
      in if isControlSolution then None
         else (case ketone_value v of
             None \<Rightarrow> None
           | Some (processedValue, annotations) \<Rightarrow>
               (case formatDeviceTime toISOString (r_timestamp baseRecord) of
                  Inl e \<Rightarrow> None
                | Inr devTime \<Rightarrow>
                    (case di of
                       None \<Rightarrow> None
                     | Some info \<Rightarrow>
                         Some (Ketone
                           \<lparr>k_index = r_index baseRecord,
                            k_timestamp = r_timestamp baseRecord,
                            k_raw = r_raw baseRecord,
                            k_value = processedValue,
                            k_unit = ''mmol/L'',
                            k_isControlSolution = False,
                            k_annotations = (if length annotations > 0 then Some annotations else None),
                            k_deviceTime = devTime,
                            k_jsDate = r_timestamp baseRecord,
                            k_deviceId = deviceId info,
                            k_serialNumber = serialNumber info\<rparr>)))))"

definition processTimeChangeRecord ::
  "(js_date \<Rightarrow> string option) \<Rightarrow> device_info option \<Rightarrow> string list \<Rightarrow> base_record
   \<Rightarrow> parsed_record option" where
  "processTimeChangeRecord toISOString di flds baseRecord =
     (let valid = (parseInt_field (field_at flds 7) = Some 1)
      in if \<not> valid then None
         else
           (let fromTimestamp =
                  \<lparr>d_year = js_add (parseInt_field (field_at flds 10)) 2000,
                   d_monthIndex = js_add (parseInt_field (field_at flds 8)) (- 1),
                   d_day = parseInt_field (field_at flds 9),
                   d_hours = parseInt_field (field_at flds 11),
                   d_minutes = parseInt_field (field_at flds 12),
                   d_seconds = Some 0\<rparr>
            in case formatDeviceTime toISOString fromTimestamp of
                 Inl e \<Rightarrow> None
               | Inr fromTime \<Rightarrow>
                   (case formatDeviceTime toISOString (r_timestamp baseRecord) of
                      Inl e \<Rightarrow> None
                    | Inr devTime \<Rightarrow>
                        (case di of
                           None \<Rightarrow> None
                         | Some info \<Rightarrow>
                             Some (TimeChange
                               \<lparr>t_index = r_index baseRecord,
                                t_timestamp = r_timestamp baseRecord,
                                t_raw = r_raw baseRecord,
                                t_from = fromTime,
                                t_to = devTime,
                                t_agent = ''manual'',
                                t_valid = valid,
                                t_deviceTime = devTime,
                                t_jsDate = r_timestamp baseRecord,
                                t_deviceId = deviceId info,
                                t_serialNumber = serialNumber info\<rparr>)))))"

text \<open>
  An assignment to a binding declared with \<^verbatim>\<open>const\<close>: the right-hand side has been
  evaluated, the assignment throws TypeError and the binding keeps its value.
\<close>

definition assign_const :: "'a \<Rightarrow> js_error + 'b" where
  "assign_const rhs = Inl TypeError"

text \<open>
  \<^verbatim>\<open>parseRecord\<close>.  \<^verbatim>\<open>processedRecord\<close> is declared \<^verbatim>\<open>const\<close> and the three cases of
  the \<^verbatim>\<open>switch\<close> assign to it; the \<^verbatim>\<open>catch\<close> of the function returns \<^verbatim>\<open>null\<close>.
\<close>

definition parseRecord ::
  "(js_date \<Rightarrow> string option) \<Rightarrow> device_info option \<Rightarrow> string \<Rightarrow> parsed_record option" where
  "parseRecord toISOString di record =
     (let flds = js_split '','' record
      in if length flds < 8 then None
         else
           (let recordType = parseInt_field (field_at flds 0);
                index = parseInt_field (field_at flds 1);
                month = parseInt_field (field_at flds 2);
                day = parseInt_field (field_at flds 3);
                year = js_add (parseInt_field (field_at flds 4)) 2000;
                hours = parseInt_field (field_at flds 5);
                minutes = parseInt_field (field_at flds 6);
                seconds = or_zero (parseInt_field (field_at flds 7));
                timestamp = \<lparr>d_year = year, d_monthIndex = js_add month (- 1), d_day = day,
                             d_hours = hours, d_minutes = minutes, d_seconds = seconds\<rparr>;
                processedRecord = \<lparr>r_type = recordType, r_index = index,
                                   r_timestamp = timestamp, r_raw = record\<rparr>;
                switch =
                  (if recordType = Some 7
                   then assign_const (processGlucoseRecord toISOString di flds processedRecord)
                   else if recordType = Some 9
                   then assign_const (processKetoneRecord toISOString di flds processedRecord)
                   else if recordType = Some 6
                   then assign_const (processTimeChangeRecord toISOString di flds processedRecord)
                   else Inr processedRecord)
            in case switch of
                 Inl e \<Rightarrow> None
               | Inr r \<Rightarrow> Some (Unprocessed r)))"

text \<open>\<^verbatim>\<open>processRecords\<close>: the loop pushes every non-null result of \<^verbatim>\<open>parseRecord\<close>.\<close>

fun processRecords_loop ::
  "(js_date \<Rightarrow> string option) \<Rightarrow> device_info option \<Rightarrow> string list \<Rightarrow> parsed_record list
   \<Rightarrow> parsed_record list" where
  "processRecords_loop toISOString di [] processedRecords = processedRecords"
| "processRecords_loop toISOString di (record # records) processedRecords =
     (case parseRecord toISOString di record of
        None \<Rightarrow> processRecords_loop toISOString di records processedRecords
      | Some processedRecord \<Rightarrow>
          processRecords_loop toISOString di records (processedRecords @ [processedRecord]))"

definition processRecords ::
  "(js_date \<Rightarrow> string option) \<Rightarrow> device_info option \<Rightarrow> string list \<Rightarrow> parsed_record list" where
  "processRecords toISOString di records = processRecords_loop toISOString di records []"

subsection \<open>Text responses\<close>

text \<open>
  The regular expression of \<^verbatim>\<open>parseTextResponse\<close>,
  \<^verbatim>\<open>/^([^\r]*)\r\nCKSM:([0-9A-F]{8})\r\nCMD (OK|Fail!)\r\n/\<close>,
  matched from the start of the string; the result is the three groups.  The first
  group is the longest prefix without a carriage return, since the pattern goes on
  with one.
\<close>

definition is_upper_hex :: "char \<Rightarrow> bool" where
  "is_upper_hex c =
     (let n = of_char c :: nat in (48 \<le> n \<and> n \<le> 57) \<or> (65 \<le> n \<and> n \<le> 70))"

definition strip_prefix :: "string \<Rightarrow> string \<Rightarrow> string option" where
  "strip_prefix p s = (if prefix p s then Some (drop (length p) s) else None)"

definition match_response :: "string \<Rightarrow> (string \<times> string \<times> string) option" where
  "match_response response =
     (let data = takeWhile (\<lambda>c. c \<noteq> CR) response;
          rest0 = dropWhile (\<lambda>c. c \<noteq> CR) response
      in case strip_prefix (CRLF @ ''CKSM:'') rest0 of
           None \<Rightarrow> None
         | Some rest1 \<Rightarrow>
             (let cksm = take 8 rest1; rest2 = drop 8 rest1
              in if length cksm = 8 \<and> list_all is_upper_hex cksm
                 then (case strip_prefix (CRLF @ ''CMD '') rest2 of
                         None \<Rightarrow> None
                       | Some rest3 \<Rightarrow>
                           (if prefix (''OK'' @ CRLF) rest3 then Some (data, cksm, ''OK'')
                            else if prefix (''Fail!'' @ CRLF) rest3 then Some (data, cksm, ''Fail!'')
                            else None))
                 else None))"

text \<open>
  \<^verbatim>\<open>parseTextResponse\<close> of the driver: \<^verbatim>\<open>null\<close> for an empty or blank response, for
  a response that the expression does not match and for a status other than OK; the
  first group otherwise.  The second group is not read.
\<close>

definition parseTextResponse :: "string \<Rightarrow> string option" where
  "parseTextResponse response =
     (if response = [] \<or> js_trim response = [] then None
      else (case match_response response of
              None \<Rightarrow> None
            | Some (data, cksm, status) \<Rightarrow> if status \<noteq> ''OK'' then None else Some data))"

subsection \<open>Transport and session state\<close>

text \<open>
  The calls a session makes on the USB module and on the clock, in order.  The device
  name is \<^verbatim>\<open>null\<close> in the protocol object until \<^verbatim>\<open>initCommunication\<close> stores it.
\<close>

datatype event =
    OpenDevice "string option"
  | CloseDevice "string option"
  | ClaimInterface "string option" nat
  | WriteData "string option" "nat list"
  | ReadData "string option" nat
  | Delay nat
  | Progress nat nat

text \<open>
  The USB module given to the constructor.  What a call answers may depend on the
  calls made before it (the first argument) and on its arguments; \<open>Inl\<close> is a
  rejected promise.  The driver accepts any object with these functions.  Those of the
  repository's native module (\<^verbatim>\<open>ExpoUsbConectedModule\<close>) catch every exception and
  answer false, -1 or an empty list, so that their promises are not rejected as long
  as the arguments have the declared types.
\<close>

record usb_module =
  openDevice :: "event list \<Rightarrow> string option \<Rightarrow> js_error + bool"
  closeDevice :: "event list \<Rightarrow> string option \<Rightarrow> js_error + bool"
  claimInterface :: "event list \<Rightarrow> string option \<Rightarrow> nat \<Rightarrow> js_error + bool"
  writeData :: "event list \<Rightarrow> string option \<Rightarrow> nat list \<Rightarrow> js_error + int"
  readData :: "event list \<Rightarrow> string option \<Rightarrow> nat \<Rightarrow> js_error + int list option"

text \<open>
  The fields of the driver object (\<open>deviceInfo\<close>, \<open>isConnected\<close>) and of its protocol
  object (\<open>p_deviceName\<close>, \<open>isInitialized\<close>), with the calls made so far.
\<close>

record session =
  deviceInfo :: "device_info option"
  isConnected :: bool
  p_deviceName :: "string option"
  isInitialized :: bool
  trace :: "event list"

definition emit :: "event \<Rightarrow> session \<Rightarrow> session" where
  "emit e s = s\<lparr>trace := trace s @ [e]\<rparr>"

definition call_openDevice ::
  "usb_module \<Rightarrow> string option \<Rightarrow> session \<Rightarrow> (js_error + bool) \<times> session" where
  "call_openDevice usb name s = (openDevice usb (trace s) name, emit (OpenDevice name) s)"

definition call_closeDevice ::
  "usb_module \<Rightarrow> string option \<Rightarrow> session \<Rightarrow> (js_error + bool) \<times> session" where
  "call_closeDevice usb name s = (closeDevice usb (trace s) name, emit (CloseDevice name) s)"

definition call_claimInterface ::
  "usb_module \<Rightarrow> string option \<Rightarrow> nat \<Rightarrow> session \<Rightarrow> (js_error + bool) \<times> session" where
  "call_claimInterface usb name n s =
     (claimInterface usb (trace s) name n, emit (ClaimInterface name n) s)"

definition call_writeData ::
  "usb_module \<Rightarrow> string option \<Rightarrow> nat list \<Rightarrow> session \<Rightarrow> (js_error + int) \<times> session" where
  "call_writeData usb name bytes s =
     (writeData usb (trace s) name bytes, emit (WriteData name bytes) s)"

definition call_readData ::
  "usb_module \<Rightarrow> string option \<Rightarrow> nat \<Rightarrow> session \<Rightarrow> (js_error + int list option) \<times> session" where
  "call_readData usb name timeout s =
     (readData usb (trace s) name timeout, emit (ReadData name timeout) s)"

definition delay :: "nat \<Rightarrow> session \<Rightarrow> session" where
  "delay ms s = emit (Delay ms) s"

text \<open>The progress callback, when one is given, is called with the step and the total.\<close>

definition progress :: "bool \<Rightarrow> nat \<Rightarrow> nat \<Rightarrow> session \<Rightarrow> session" where
  "progress progressCallback step steps s =
     (if progressCallback then emit (Progress step steps) s else s)"

subsection \<open>Initialization handshake\<close>

text \<open>
  \<^verbatim>\<open>sendWakeUpCommand\<close>: a rejected write leaves through the outer handler (false); a
  negative count is only logged; after 500 ms one read, whose rejection is ignored.
\<close>

definition sendWakeUpCommand :: "usb_module \<Rightarrow> session \<Rightarrow> bool \<times> session" where
  "sendWakeUpCommand usb s =
     (let wakeUpFrame = createHIDFrame 0x00 None;
          (bytesWritten, s) = call_writeData usb (p_deviceName s) wakeUpFrame s
      in case bytesWritten of
           Inl e \<Rightarrow> (False, s)
         | Inr n \<Rightarrow>
             (let s = delay 500 s;
                  (response, s) = call_readData usb (p_deviceName s) 1000 s
              in (True, s)))"

text \<open>
  The retry loop of \<^verbatim>\<open>sendInitCommand\<close>:
  \<^verbatim>\<open>while (attempts < maxAttempts && bytesWritten < 0)\<close>, with the delay after a failed
  attempt that is not the last one.  A rejected write leaves the loop.
\<close>

definition maxAttempts :: nat where "maxAttempts = 3"

function write_attempts ::
  "usb_module \<Rightarrow> nat list \<Rightarrow> nat \<Rightarrow> int \<Rightarrow> session \<Rightarrow> (js_error + int) \<times> session" where
  "write_attempts usb hidFrame attempts bytesWritten s =
     (if attempts < maxAttempts \<and> bytesWritten < 0
      then (let attempts = attempts + 1;
                (r, s) = call_writeData usb (p_deviceName s) hidFrame s
            in case r of
                 Inl e \<Rightarrow> (Inl e, s)
               | Inr n \<Rightarrow>
                   write_attempts usb hidFrame attempts n
                     (if n < 0 \<and> attempts < maxAttempts then delay RETRY_DELAY s else s))
      else (Inr bytesWritten, s))"
  by pat_completeness auto
termination
  by (relation "measure (\<lambda>(usb, hidFrame, attempts, bytesWritten, s). maxAttempts - attempts)")
     auto

declare write_attempts.simps [simp del]

text \<open>\<^verbatim>\<open>readInitResponse\<close>: the bytes read, or \<^verbatim>\<open>null\<close> when there are none or the read is rejected.\<close>

definition readInitResponse :: "usb_module \<Rightarrow> session \<Rightarrow> int list option \<times> session" where
  "readInitResponse usb s =
     (let (response, s) = call_readData usb (p_deviceName s) TIMEOUT s
      in case response of
           Inl e \<Rightarrow> (None, s)
         | Inr None \<Rightarrow> (None, s)
         | Inr (Some bytes) \<Rightarrow> (if length bytes > 0 then (Some bytes, s) else (None, s)))"

definition sendInitCommand :: "usb_module \<Rightarrow> nat \<Rightarrow> session \<Rightarrow> bool \<times> session" where
  "sendInitCommand usb command s =
     (let hidFrame = createHIDFrame command None;
          (r, s) = write_attempts usb hidFrame 0 (- 1) s
      in case r of
           Inl e \<Rightarrow> (False, s)
         | Inr bytesWritten \<Rightarrow>
             if bytesWritten < 0 then (False, s)
             else if command \<noteq> 0x00
             then (let (response, s) = readInitResponse usb s in (True, s))
             else (True, s))"

text \<open>
  The loop of \<^verbatim>\<open>executeInitSequence\<close> over \<^verbatim>\<open>INIT_SEQUENCE\<close>, from index \<open>i\<close>: the error
  carries the number of the command (\<open>i + 1\<close>) and its code.
\<close>

function init_loop :: "usb_module \<Rightarrow> nat \<Rightarrow> session \<Rightarrow> (js_error + bool) \<times> session" where
  "init_loop usb i s =
     (if i < length INIT_SEQUENCE
      then (let initCommand = INIT_SEQUENCE ! i;
                (success, s) = sendInitCommand usb initCommand s
            in if \<not> success then (Inl (InitCommandFailed (i + 1) initCommand), s)
               else init_loop usb (i + 1) (delay RETRY_DELAY s))
      else (Inr True, s))"
  by pat_completeness auto
termination
  by (relation "measure (\<lambda>(usb, i, s). length INIT_SEQUENCE - i)") auto

declare init_loop.simps [simp del]

definition executeInitSequence :: "usb_module \<Rightarrow> session \<Rightarrow> (js_error + bool) \<times> session" where
  "executeInitSequence usb s =
     (let (woke, s) = sendWakeUpCommand usb s;
          s = delay 60000 s
      in init_loop usb 0 s)"

text \<open>\<^verbatim>\<open>FreeStyleProtocolMobile.initCommunication\<close>.\<close>

definition protocol_initCommunication ::
  "usb_module \<Rightarrow> string \<Rightarrow> session \<Rightarrow> (js_error + bool) \<times> session" where
  "protocol_initCommunication usb name s =
     (let s = s\<lparr>p_deviceName := Some name\<rparr>;
          (initSuccess, s) = executeInitSequence usb s
      in case initSuccess of
           Inl e \<Rightarrow> (Inl e, s\<lparr>isInitialized := False\<rparr>)
         | Inr ok \<Rightarrow>
             if \<not> ok then (Inl InitSequenceFailed, s\<lparr>isInitialized := False\<rparr>)
             else (Inr True, s\<lparr>isInitialized := True\<rparr>))"

subsection \<open>Driver: connect and disconnect\<close>

definition connectToDevice ::
  "usb_module \<Rightarrow> device_info \<Rightarrow> session \<Rightarrow> (js_error + bool) \<times> session" where
  "connectToDevice usb info s =
     (let (opened, s) = call_openDevice usb (Some (deviceName info)) s
      in case opened of
           Inl e \<Rightarrow> (Inl e, s)
         | Inr ok \<Rightarrow>
             if \<not> ok then (Inl OpenFailed, s)
             else (let (claimed, s) = call_claimInterface usb (Some (deviceName info)) 0 s
                   in case claimed of
                        Inl e \<Rightarrow> (Inl e, s)
                      | Inr ok \<Rightarrow>
                          if \<not> ok then (Inl ClaimFailed, s) else (Inr True, s)))"

text \<open>\<^verbatim>\<open>AbbottFreeStyleNeoMobile.initCommunication\<close>.\<close>

definition initCommunication ::
  "usb_module \<Rightarrow> string \<Rightarrow> session \<Rightarrow> (js_error + bool) \<times> session" where
  "initCommunication usb name s =
     (let (initSuccess, s) = protocol_initCommunication usb name s
      in case initSuccess of
           Inl e \<Rightarrow> (Inl e, s)
         | Inr ok \<Rightarrow> if \<not> ok then (Inl ProtocolInitFailed, s) else (Inr True, s))"

text \<open>
  \<^verbatim>\<open>verifyConnection\<close>: writes the two bytes 0x04 0x00; false on a negative count and
  on every exception (\<^verbatim>\<open>this.deviceInfo\<close> being \<^verbatim>\<open>null\<close> included).
\<close>

definition verifyConnection :: "usb_module \<Rightarrow> session \<Rightarrow> bool \<times> session" where
  "verifyConnection usb s =
     (case deviceInfo s of
        None \<Rightarrow> (False, s)
      | Some info \<Rightarrow>
          (let testCommand = [0x04, 0x00];
               (response, s) = call_writeData usb (Some (deviceName info)) testCommand s
           in case response of
                Inl e \<Rightarrow> (False, s)
              | Inr n \<Rightarrow> if n < 0 then (False, s) else (True, s)))"

text \<open>
  \<^verbatim>\<open>connect(deviceInfo, progressCallback)\<close>.  The body of the \<^verbatim>\<open>try\<close> is \<open>connect_body\<close>;
  the handler sets \<^verbatim>\<open>isConnected = false\<close> and throws the error again.
\<close>

definition connect_body ::
  "usb_module \<Rightarrow> device_info \<Rightarrow> bool \<Rightarrow> session \<Rightarrow> (js_error + bool) \<times> session" where
  "connect_body usb info progressCallback s =
     (let s = s\<lparr>deviceInfo := Some info\<rparr>;
          s = progress progressCallback 1 4 s;
          (connected, s) = connectToDevice usb info s
      in case connected of
           Inl e \<Rightarrow> (Inl e, s)
         | Inr ok \<Rightarrow>
             if \<not> ok then (Inl ConnectFailed, s)
             else
               (let s = progress progressCallback 2 4 s;
                    (initialized, s) = initCommunication usb (deviceName info) s
                in case initialized of
                     Inl e \<Rightarrow> (Inl e, s)
                   | Inr ok \<Rightarrow>
                       (let s = progress progressCallback 3 4 s;
                            (isStable, s) = verifyConnection usb s
                        in if \<not> isStable then (Inl UnstableConnection, s)
                           else
                             (let s = s\<lparr>isConnected := True\<rparr>;
                                  s = progress progressCallback 4 4 s
                              in (Inr True, s)))))"

definition connect ::
  "usb_module \<Rightarrow> device_info \<Rightarrow> bool \<Rightarrow> session \<Rightarrow> (js_error + bool) \<times> session" where
  "connect usb info progressCallback s =
     (let (r, s) = connect_body usb info progressCallback s
      in case r of
           Inl e \<Rightarrow> (Inl e, s\<lparr>isConnected := False\<rparr>)
         | Inr ok \<Rightarrow> (Inr ok, s))"

text \<open>
  \<^verbatim>\<open>disconnect\<close>: closes the device when \<^verbatim>\<open>deviceInfo\<close> is set; a rejection is thrown
  again before the two fields are reset.
\<close>

definition disconnect :: "usb_module \<Rightarrow> session \<Rightarrow> (js_error + bool) \<times> session" where
  "disconnect usb s =
     (case deviceInfo s of
        Some info \<Rightarrow>
          (let (closed, s) = call_closeDevice usb (Some (deviceName info)) s
           in case closed of
                Inl e \<Rightarrow> (Inl e, s)
              | Inr b \<Rightarrow> (Inr True, s\<lparr>isConnected := False, deviceInfo := None\<rparr>))
      | None \<Rightarrow> (Inr True, s\<lparr>isConnected := False, deviceInfo := None\<rparr>))"

subsection \<open>Protocol: text requests\<close>

text \<open>
  \<^verbatim>\<open>requestTextResponse\<close>: the bytes read are filtered by \<^verbatim>\<open>b >= 32 && b <= 126\<close> and
  then turned into characters by \<^verbatim>\<open>String.fromCharCode\<close>.
\<close>

definition requestTextResponse ::
  "usb_module \<Rightarrow> string \<Rightarrow> session \<Rightarrow> (js_error + string) \<times> session" where
  "requestTextResponse usb command s =
     (if \<not> isInitialized s then (Inl NotInitialized, s)
      else
        (let hidFrame = createTextCommandFrame command;
             (bytesWritten, s) = call_writeData usb (p_deviceName s) hidFrame s
         in case bytesWritten of
              Inl e \<Rightarrow> (Inl e, s)
            | Inr n \<Rightarrow>
                if n < 0 then (Inl (TextWriteFailed n), s)
                else
                  (let (response, s) = call_readData usb (p_deviceName s) TIMEOUT s
                   in case response of
                        Inl e \<Rightarrow> (Inl e, s)
                      | Inr None \<Rightarrow> (Inl NoResponse, s)
                      | Inr (Some bytes) \<Rightarrow>
                          if length bytes = 0 then (Inl NoResponse, s)
                          else (Inr (map char_of (filter (\<lambda>b. b \<ge> 32 \<and> b \<le> 126) bytes)), s))))"

text \<open>\<^verbatim>\<open>getResults\<close>: the non-blank pieces of the trimmed response between CR LF pairs.\<close>

definition getResults :: "usb_module \<Rightarrow> session \<Rightarrow> (js_error + string list) \<times> session" where
  "getResults usb s =
     (let (response, s) = requestTextResponse usb ''$result?'' s
      in case response of
           Inl e \<Rightarrow> (Inl e, s)
         | Inr txt \<Rightarrow>
             if txt \<noteq> [] \<and> js_trim txt \<noteq> []
             then (Inr (filter (\<lambda>line. js_trim line \<noteq> []) (js_split CRLF (js_trim txt))), s)
             else (Inr [], s))"

subsection \<open>Notions used in the statements\<close>

text \<open>
  The type code of a line, \<^verbatim>\<open>parseInt(fields[0])\<close>, and the object with the common
  fields that \<^verbatim>\<open>parseRecord\<close> builds before its \<^verbatim>\<open>switch\<close>.
\<close>

definition record_type :: "string \<Rightarrow> js_number" where
  "record_type record = parseInt_field (field_at (js_split '','' record) 0)"

definition common_fields :: "string \<Rightarrow> base_record" where
  "common_fields record =
     (let flds = js_split '','' record
      in \<lparr>r_type = parseInt_field (field_at flds 0),
          r_index = parseInt_field (field_at flds 1),
          r_timestamp =
            \<lparr>d_year = js_add (parseInt_field (field_at flds 4)) 2000,
             d_monthIndex = js_add (parseInt_field (field_at flds 2)) (- 1),
             d_day = parseInt_field (field_at flds 3),
             d_hours = parseInt_field (field_at flds 5),
             d_minutes = parseInt_field (field_at flds 6),
             d_seconds = or_zero (parseInt_field (field_at flds 7))\<rparr>,
          r_raw = record\<rparr>)"

text \<open>The lines that \<^verbatim>\<open>processRecords\<close> keeps.\<close>

definition emitted :: "string \<Rightarrow> bool" where
  "emitted record =
     (8 \<le> length (js_split '','' record)
      \<and> record_type record \<noteq> Some 7 \<and> record_type record \<noteq> Some 9
      \<and> record_type record \<noteq> Some 6)"

subsection \<open>Example values\<close>

text \<open>
  A host whose \<^verbatim>\<open>toISOString\<close> succeeds, a device description, and lines of the
  result format: glucose (type 7) with value 120, a control-solution glucose line
  (field 10 is 0), glucose lines with HI and LO in field 8, the specification's example
  with HI in field 7, and a line of type 10.
\<close>

abbreviation example_toISOString :: "js_date \<Rightarrow> string option" where
  "example_toISOString \<equiv> (\<lambda>d. Some ''2024-06-15T10:30:00.000Z'')"

abbreviation example_device :: device_info where
  "example_device \<equiv> \<lparr>deviceName = ''/dev/bus/usb/001/002'', deviceId = None, serialNumber = None\<rparr>"

abbreviation line_glucose :: string where
  "line_glucose \<equiv> ''7,1,6,15,24,10,30,0,120,0,1''"

abbreviation line_control :: string where
  "line_control \<equiv> ''7,2,6,15,24,10,35,0,95,0,0''"

abbreviation line_HI :: string where
  "line_HI \<equiv> ''7,1,6,15,24,10,30,0,HI,0,1''"

abbreviation line_LO :: string where
  "line_LO \<equiv> ''7,1,6,15,24,10,30,0,LO,0,1''"

abbreviation line_spec_HI :: string where
  "line_spec_HI \<equiv> ''7,1,6,15,24,10,30,HI,0,0,0''"

abbreviation line_insulin :: string where
  "line_insulin \<equiv> ''10,5,6,15,24,10,30,0''"

subsection \<open>Reading a trace\<close>

text \<open>
  The number of \<^verbatim>\<open>closeDevice\<close> calls in a trace, and the first elements (the opcodes)
  of the frames written, in order.
\<close>

fun is_close :: "event \<Rightarrow> bool" where
  "is_close (CloseDevice name) = True"
| "is_close e = False"

definition closes :: "event list \<Rightarrow> nat" where
  "closes tr = length (filter is_close tr)"

fun write_opcode :: "event \<Rightarrow> nat option" where
  "write_opcode (WriteData name (c # bytes)) = Some c"
| "write_opcode e = None"

definition written_opcodes :: "event list \<Rightarrow> nat list" where
  "written_opcodes tr = List.map_filter write_opcode tr"

text \<open>
  \<open>k\<close> attempts to write a frame, with the retry delay between two attempts, and the
  opcodes of a run of commands of which the \<open>i\<close>-th is written \<open>ks ! i\<close> times.
\<close>

fun attempt_events :: "string option \<Rightarrow> nat list \<Rightarrow> nat \<Rightarrow> event list" where
  "attempt_events name frame 0 = []"
| "attempt_events name frame (Suc 0) = [WriteData name frame]"
| "attempt_events name frame (Suc (Suc k)) =
     WriteData name frame # Delay RETRY_DELAY # attempt_events name frame (Suc k)"

fun repeated :: "nat list \<Rightarrow> nat list \<Rightarrow> nat list" where
  "repeated (k # ks) (c # cs) = replicate k c @ repeated ks cs"
| "repeated ks cs = []"

text \<open>
  A new driver object, and three USB modules: one on which every call succeeds and a
  read times out (no bytes); one that differs only in refusing every frame whose
  opcode is 0x05 (a negative count); one whose \<^verbatim>\<open>closeDevice\<close> is rejected; and one that
  answers a read with the bytes of \<^verbatim>\<open>7,1\r\n8,2\<close>.
\<close>

definition new_session :: session where
  "new_session =
     \<lparr>deviceInfo = None, isConnected = False, p_deviceName = None, isInitialized = False,
      trace = []\<rparr>"

definition usb_ok :: usb_module where
  "usb_ok =
     \<lparr>openDevice = (\<lambda>tr name. Inr True),
      closeDevice = (\<lambda>tr name. Inr True),
      claimInterface = (\<lambda>tr name n. Inr True),
      writeData = (\<lambda>tr name bytes. Inr 64),
      readData = (\<lambda>tr name timeout. Inr (Some []))\<rparr>"

definition usb_refusing_05 :: usb_module where
  "usb_refusing_05 =
     usb_ok\<lparr>writeData := (\<lambda>tr name bytes. if take 1 bytes = [0x05] then Inr (- 1) else Inr 64)\<rparr>"

definition usb_close_rejected :: usb_module where
  "usb_close_rejected = usb_ok\<lparr>closeDevice := (\<lambda>tr name. Inl Rejected)\<rparr>"

definition usb_two_lines :: usb_module where
  "usb_two_lines =
     usb_ok\<lparr>readData := (\<lambda>tr name timeout. Inr (Some [55, 44, 49, 13, 10, 56, 44, 50]))\<rparr>"

text \<open>Every command of a run was written once, twice or three times.\<close>

definition attempts_ok :: "nat list \<Rightarrow> bool" where
  "attempts_ok ks = list_all (\<lambda>k. 1 \<le> k \<and> k \<le> 3) ks"

text \<open>A driver object after a successful handshake with the example device.\<close>

definition ready_session :: session where
  "ready_session =
     new_session\<lparr>deviceInfo := Some example_device,
                 p_deviceName := Some ''/dev/bus/usb/001/002'', isInitialized := True\<rparr>"

text \<open>The printable ASCII characters, codes 32 to 126.\<close>

definition printable :: "char \<Rightarrow> bool" where
  "printable c = (32 \<le> (of_char c :: int) \<and> (of_char c :: int) \<le> 126)"

subsection \<open>The example application's own parser of text responses\<close>

text \<open>
  \<^verbatim>\<open>parseTextResponse\<close> of \<^verbatim>\<open>example/App.tsx\<close>, a second function of this name with
  the same regular expression.  Where the driver's function returns \<^verbatim>\<open>null\<close> for a
  response that does not match, this one returns the first piece of
  \<^verbatim>\<open>response.split('\r\n')\<close> unless that piece is blank.  After a match it compares the
  checksum with the sum of the character codes only to write a warning to the console.
\<close>

definition app_parseTextResponse :: "string \<Rightarrow> string option" where
  "app_parseTextResponse response =
     (if response = [] \<or> js_trim response = [] then None
      else (case match_response response of
              None \<Rightarrow>
                (let lines = js_split CRLF response
                 in if length lines > 0 \<and> js_trim (lines ! 0) \<noteq> [] then Some (lines ! 0)
                    else None)
            | Some (data, cksm, status) \<Rightarrow> if status \<noteq> ''OK'' then None else Some data))"

text \<open>
  Two USB modules that recover: one refuses a frame until it is retried (a write is
  accepted when the two calls before it are a write of the same frame and the retry
  delay), the other accepts only the third attempt.
\<close>

definition usb_retry_once :: usb_module where
  "usb_retry_once =
     usb_ok\<lparr>writeData :=
       (\<lambda>tr name bytes.
          if take 2 (rev tr) = [Delay RETRY_DELAY, WriteData name bytes] then Inr 64
          else Inr (- 1))\<rparr>"

definition usb_third_attempt :: usb_module where
  "usb_third_attempt =
     usb_ok\<lparr>writeData :=
       (\<lambda>tr name bytes.
          if take 4 (rev tr) = [Delay RETRY_DELAY, WriteData name bytes,
                                Delay RETRY_DELAY, WriteData name bytes]
          then Inr 64 else Inr (- 1))\<rparr>"

subsection \<open>Frame codec: proofs\<close>

lemma copy_payload_step:
  "copy_payload d (Suc n) frame = (copy_payload d n frame)[2 + n := d ! n]"
  by (simp add: copy_payload_def)

lemma copy_payload_length [simp]: "length (copy_payload d n frame) = length frame"
  by (induction n) (simp_all add: copy_payload_step, simp add: copy_payload_def)

lemma copy_payload_closed:
  "n \<le> length d \<Longrightarrow> 2 + n \<le> length frame \<Longrightarrow>
   copy_payload d n frame = take 2 frame @ take n d @ drop (2 + n) frame"
proof (induction n)
  case 0
  then show ?case by (simp add: copy_payload_def)
next
  case (Suc n)
  have len: "length (take 2 frame @ take n d) = 2 + n"
    using Suc.prems by simp
  have "copy_payload d (Suc n) frame
        = ((take 2 frame @ take n d) @ drop (2 + n) frame)[2 + n := d ! n]"
    using Suc by (simp add: copy_payload_step)
  also have "\<dots> = (take 2 frame @ take n d) @ (drop (2 + n) frame)[0 := d ! n]"
    using len by (simp add: list_update_append)
  also have "(drop (2 + n) frame)[0 := d ! n] = d ! n # drop (Suc (2 + n)) frame"
    using Suc.prems by (metis Cons_nth_drop_Suc Suc_le_lessD add_Suc_right list_update_code(2))
  also have "(take 2 frame @ take n d) @ d ! n # drop (Suc (2 + n)) frame
             = take 2 frame @ take (Suc n) d @ drop (2 + Suc n) frame"
    using Suc.prems by (simp add: take_Suc_conv_app_nth)
  finally show ?case .
qed

lemma createHIDFrame_None: "createHIDFrame command None = command # replicate 63 0"
  by (simp add: createHIDFrame_def FRAME_SIZE_def numeral_eq_Suc)

lemma base_frame_take2:
  "take 2 ((replicate 64 (0::nat))[0 := c, 1 := l]) = [c, l]"
  by (simp add: numeral_eq_Suc)

lemma base_frame_drop:
  "drop (2 + n) ((replicate 64 (0::nat))[0 := c, 1 := l]) = replicate (62 - n) 0"
  by simp

lemma copy_into_base_frame:
  "copy_payload d (min (length d) 62) ((replicate 64 0)[0 := c, 1 := l])
   = c # l # take 62 d @ replicate (62 - length d) 0"
proof -
  let ?n = "min (length d) 62"
  have "copy_payload d ?n ((replicate 64 0)[0 := c, 1 := l])
        = take 2 ((replicate 64 0)[0 := c, 1 := l]) @ take ?n d
          @ drop (2 + ?n) ((replicate 64 0)[0 := c, 1 := l])"
    by (rule copy_payload_closed) simp_all
  also have "\<dots> = [c, l] @ take ?n d @ replicate (62 - ?n) 0"
    by (simp only: base_frame_take2 base_frame_drop)
  also have "take ?n d = take 62 d"
    by (simp add: min_def)
  also have "62 - ?n = 62 - length d"
    by (simp add: min_def)
  finally show ?thesis by simp
qed

lemma createHIDFrame_Some:
  "createHIDFrame command (Some d) = command # length d # take 62 d @ replicate (62 - length d) 0"
proof (cases "d = []")
  case True
  then show ?thesis
    by (simp add: createHIDFrame_def FRAME_SIZE_def numeral_eq_Suc)
next
  case False
  then show ?thesis
    using copy_into_base_frame [of d command "length d"]
    by (simp add: createHIDFrame_def FRAME_SIZE_def)
qed

lemma createTextCommandFrame_closed:
  "createTextCommandFrame command
   = 0x21 # length command # take 62 (map of_char command) @ replicate (62 - length command) 0"
  using copy_into_base_frame [of "map of_char command" "0x21" "length command"]
  by (simp add: createTextCommandFrame_def FRAME_SIZE_def Let_def)

subsection \<open>Frame codec: the claims\<close>

text \<open>
  Claim C8, as amended.  \<^verbatim>\<open>createHIDFrame\<close> never fails.  Its frame has 64 elements:
  the opcode, the length of the payload (0 when there is none), the first 62 bytes of
  the payload, and zeros up to 64.  For a payload of at most 62 bytes this is the frame
  the specification describes; a longer payload is cut to 62 bytes while index 1 keeps
  its full length.  \<^verbatim>\<open>createTextCommandFrame\<close> does the same with opcode 0x21.
\<close>

theorem createHIDFrame_layout:
  "createHIDFrame opCode None = opCode # replicate 63 0
   \<and> createHIDFrame opCode (Some payload)
       = opCode # length payload # take 62 payload @ replicate (62 - length payload) 0
   \<and> length (createHIDFrame opCode (Some payload)) = 64
   \<and> (length payload \<le> 62 \<longrightarrow>
        buildControlFrame_spec opCode payload = Inr (createHIDFrame opCode (Some payload)))
   \<and> createTextCommandFrame command
       = 0x21 # length command # take 62 (map of_char command) @ replicate (62 - length command) 0"
proof (intro conjI)
  show "createHIDFrame opCode None = opCode # replicate 63 0"
    by (rule createHIDFrame_None)
  show "createHIDFrame opCode (Some payload)
       = opCode # length payload # take 62 payload @ replicate (62 - length payload) 0"
    by (rule createHIDFrame_Some)
  show "length (createHIDFrame opCode (Some payload)) = 64"
    by (simp add: createHIDFrame_Some min_def)
  show "length payload \<le> 62 \<longrightarrow>
        buildControlFrame_spec opCode payload = Inr (createHIDFrame opCode (Some payload))"
    by (simp add: createHIDFrame_Some buildControlFrame_spec_def)
  show "createTextCommandFrame command
       = 0x21 # length command # take 62 (map of_char command) @ replicate (62 - length command) 0"
    by (rule createTextCommandFrame_closed)
qed

theorem createHIDFrame_layout_witness:
  "length [1, 2, 3 :: nat] \<le> 62
   \<and> buildControlFrame_spec 4 [1, 2, 3] = Inr (createHIDFrame 4 (Some [1, 2, 3]))
   \<and> createHIDFrame 4 (Some [1, 2, 3]) = [4, 3, 1, 2, 3] @ replicate 59 0"
proof -
  have short: "length [1, 2, 3 :: nat] \<le> 62" by simp
  have frame: "createHIDFrame 4 (Some [1, 2, 3]) = [4, 3, 1, 2, 3] @ replicate 59 0"
    by (simp add: createHIDFrame_Some)
  from createHIDFrame_layout [of 4 "[1, 2, 3]" "[]"]
  have "length [1, 2, 3 :: nat] \<le> 62 \<longrightarrow>
        buildControlFrame_spec 4 [1, 2, 3] = Inr (createHIDFrame 4 (Some [1, 2, 3]))"
    by (elim conjE)
  with short frame show ?thesis by blast
qed
text \<open>
  Claim C8 as stated fails on a payload of 63 bytes: the specification's builder
  answers ValueError, the code returns a frame with 63 at index 1 and 62 payload bytes.
\<close>

theorem createHIDFrame_long_payload_counterexample:
  "buildControlFrame_spec 4 (replicate 63 1) = Inl ValueError
   \<and> createHIDFrame 4 (Some (replicate 63 1)) = 4 # 63 # replicate 62 1"
  by (simp add: buildControlFrame_spec_def createHIDFrame_Some)

subsection \<open>Text responses: proofs and claims\<close>

lemma strip_prefix_Some_iff: "strip_prefix p s = Some t \<longleftrightarrow> s = p @ t"
  by (auto simp: strip_prefix_def prefix_def)

lemma strip_prefix_append: "strip_prefix p (p @ t) = Some t"
  by (simp add: strip_prefix_Some_iff)

lemma js_trim_nonempty: "c \<in> set s \<Longrightarrow> \<not> is_js_space c \<Longrightarrow> js_trim s \<noteq> []"
proof -
  assume c: "c \<in> set s" and ns: "\<not> is_js_space c"
  let ?t = "dropWhile is_js_space s"
  have ne: "?t \<noteq> []"
    using c ns by (auto simp: dropWhile_eq_Nil_conv)
  then have "hd ?t \<in> set (rev ?t)" by simp
  moreover have "\<not> is_js_space (hd ?t)"
    using ne by (simp add: hd_dropWhile)
  ultimately have "dropWhile is_js_space (rev ?t) \<noteq> []"
    unfolding dropWhile_eq_Nil_conv by blast
  then show ?thesis by (simp add: js_trim_def)
qed

lemma split_at_CR:
  assumes "CR \<notin> set data"
  shows "takeWhile (\<lambda>c. c \<noteq> CR) (data @ CR # rest) = data"
    and "dropWhile (\<lambda>c. c \<noteq> CR) (data @ CR # rest) = CR # rest"
  using assms by (induction data) auto

lemma match_response_complete:
  assumes "CR \<notin> set data" "length cksm = 8" "list_all is_upper_hex cksm"
    and "status = ''OK'' \<or> status = ''Fail!''"
  shows "match_response (data @ CRLF @ ''CKSM:'' @ cksm @ CRLF @ ''CMD '' @ status @ CRLF @ rest)
         = Some (data, cksm, status)"
proof -
  let ?tail3 = "status @ CRLF @ rest"
  let ?tail2 = "CRLF @ ''CMD '' @ ?tail3"
  let ?tail1 = "cksm @ ?tail2"
  let ?resp = "data @ CRLF @ ''CKSM:'' @ ?tail1"
  have r: "?resp = data @ CR # (LF # ''CKSM:'' @ ?tail1)"
    by (simp add: CRLF_def)
  have tw: "takeWhile (\<lambda>c. c \<noteq> CR) ?resp = data"
    unfolding r by (rule split_at_CR(1) [OF assms(1)])
  have dw: "dropWhile (\<lambda>c. c \<noteq> CR) ?resp = (CRLF @ ''CKSM:'') @ ?tail1"
    unfolding r by (simp add: split_at_CR(2) [OF assms(1)] CRLF_def)
  have s1: "strip_prefix (CRLF @ ''CKSM:'') ((CRLF @ ''CKSM:'') @ ?tail1) = Some ?tail1"
    by (rule strip_prefix_append)
  have t8: "take 8 ?tail1 = cksm" and d8: "drop 8 ?tail1 = (CRLF @ ''CMD '') @ ?tail3"
    using assms(2) by simp_all
  have s2: "strip_prefix (CRLF @ ''CMD '') ((CRLF @ ''CMD '') @ ?tail3) = Some ?tail3"
    by (rule strip_prefix_append)
  have st: "(if prefix (''OK'' @ CRLF) ?tail3 then Some (data, cksm, ''OK'')
             else if prefix (''Fail!'' @ CRLF) ?tail3 then Some (data, cksm, ''Fail!'')
             else None) = Some (data, cksm, status)"
    using assms(4) by (auto simp: CRLF_def)
  have "match_response ?resp =
        (if length cksm = 8 \<and> list_all is_upper_hex cksm
         then (if prefix (''OK'' @ CRLF) ?tail3 then Some (data, cksm, ''OK'')
             else if prefix (''Fail!'' @ CRLF) ?tail3 then Some (data, cksm, ''Fail!'')
             else None)
         else None)"
    by (simp only: match_response_def Let_def tw dw s1 t8 d8 s2 option.case)
  then show ?thesis
    using assms(2,3) st by simp
qed

lemma match_response_sound:
  assumes "match_response response = Some (data, cksm, status)"
  shows "\<exists>rest. response = data @ CRLF @ ''CKSM:'' @ cksm @ CRLF @ ''CMD '' @ status @ CRLF @ rest
          \<and> CR \<notin> set data \<and> length cksm = 8 \<and> list_all is_upper_hex cksm
          \<and> (status = ''OK'' \<or> status = ''Fail!'')"
proof -
  let ?d = "takeWhile (\<lambda>c. c \<noteq> CR) response"
  let ?r0 = "dropWhile (\<lambda>c. c \<noteq> CR) response"
  from assms obtain r1 where r1: "strip_prefix (CRLF @ ''CKSM:'') ?r0 = Some r1"
    by (auto simp: match_response_def Let_def split: option.splits)
  from assms r1 have ck: "length (take 8 r1) = 8" "list_all is_upper_hex (take 8 r1)"
    by (auto simp: match_response_def Let_def split: option.splits if_splits)
  from assms r1 ck obtain r3 where r3: "strip_prefix (CRLF @ ''CMD '') (drop 8 r1) = Some r3"
    by (auto simp: match_response_def Let_def split: option.splits if_splits)
  from assms r1 ck r3 have res: "data = ?d" "cksm = take 8 r1"
    and st: "(status = ''OK'' \<and> prefix (''OK'' @ CRLF) r3) \<or> (status = ''Fail!'' \<and> prefix (''Fail!'' @ CRLF) r3)"
    by (auto simp: match_response_def Let_def split: option.splits if_splits)
  from st obtain rest where rest: "r3 = status @ CRLF @ rest" "status = ''OK'' \<or> status = ''Fail!''"
    by (auto simp: prefix_def)
  have "response = ?d @ ?r0" by simp
  also have "?r0 = (CRLF @ ''CKSM:'') @ r1" using r1 by (simp add: strip_prefix_Some_iff)
  also have "r1 = take 8 r1 @ drop 8 r1" by simp
  also have "drop 8 r1 = (CRLF @ ''CMD '') @ r3" using r3 by (simp add: strip_prefix_Some_iff)
  finally have "response = data @ CRLF @ ''CKSM:'' @ cksm @ CRLF @ ''CMD '' @ status @ CRLF @ rest"
    using res rest by simp
  moreover have "CR \<notin> set data"
    using res(1) by (auto dest: set_takeWhileD)
  ultimately show ?thesis using ck res rest by blast
qed


lemma match_response_ABC: "match_response (''ABC'' @ CRLF) = None"
  by (simp add: match_response_def CR_def LF_def CRLF_def strip_prefix_def)

lemma split_from_nonempty: "split_from sep acc s \<noteq> []"
  by (induction sep acc s rule: split_from.induct) auto

lemma js_split_CRLF_nonempty: "js_split CRLF s \<noteq> []"
  by (simp add: js_split_def split_from_nonempty CRLF_def)

lemma app_parseTextResponse_no_match:
  assumes "match_response response = None"
  shows "app_parseTextResponse response =
     (if js_trim response = [] then None
      else if js_trim (hd (js_split CRLF response)) \<noteq> [] then Some (hd (js_split CRLF response))
      else None)"
proof -
  have e: "js_trim [] = []" by (simp add: js_trim_def)
  have h: "js_split CRLF response ! 0 = hd (js_split CRLF response)"
    using js_split_CRLF_nonempty [of response] by (simp add: hd_conv_nth)
  show ?thesis
    using assms js_split_CRLF_nonempty [of response] e
    by (auto simp: app_parseTextResponse_def Let_def h)
qed

lemma app_ABC: "app_parseTextResponse (''ABC'' @ CRLF) = Some ''ABC''"
proof -
  have t: "js_trim (''ABC'' @ CRLF) \<noteq> []"
    by (rule js_trim_nonempty [of "CHR ''A''"]) (simp_all add: is_js_space_def)
  have sp: "js_split CRLF (''ABC'' @ CRLF) = [''ABC'', []]"
    by (simp add: js_split_def CR_def LF_def CRLF_def)
  have t2: "js_trim ''ABC'' \<noteq> []"
    by (rule js_trim_nonempty [of "CHR ''A''"]) (simp_all add: is_js_space_def)
  show ?thesis
    using t t2 unfolding app_parseTextResponse_no_match [OF match_response_ABC] sp by simp
qed

text \<open>
  Claim C6, as amended.  A response that the pattern
  \<^verbatim>\<open><data>\r\nCKSM:<8-hex>\r\nCMD <OK|Fail!>\r\n\<close> does not match at its start makes the
  driver's \<^verbatim>\<open>parseTextResponse\<close> return \<^verbatim>\<open>null\<close>, whatever its first line is: the
  driver has no lenient fallback.  The fallback is in the example application's
  function of the same name, which returns the first piece of the response between
  CR LF pairs when that piece is not blank, and \<^verbatim>\<open>null\<close> when it is.
\<close>

theorem parseTextResponse_no_fallback:
  "\<not> (\<exists>data cksm status rest.
        response = data @ CRLF @ ''CKSM:'' @ cksm @ CRLF @ ''CMD '' @ status @ CRLF @ rest
        \<and> CR \<notin> set data \<and> length cksm = 8 \<and> list_all is_upper_hex cksm
        \<and> (status = ''OK'' \<or> status = ''Fail!''))
   \<Longrightarrow> parseTextResponse response = None
       \<and> app_parseTextResponse response =
           (if js_trim response = [] then None
            else if js_trim (hd (js_split CRLF response)) \<noteq> []
            then Some (hd (js_split CRLF response))
            else None)"
proof -
  assume no_match: "\<not> (\<exists>data cksm status rest.
        response = data @ CRLF @ ''CKSM:'' @ cksm @ CRLF @ ''CMD '' @ status @ CRLF @ rest
        \<and> CR \<notin> set data \<and> length cksm = 8 \<and> list_all is_upper_hex cksm
        \<and> (status = ''OK'' \<or> status = ''Fail!''))"
  have m: "match_response response = None"
  proof (cases "match_response response")
    case None
    then show ?thesis .
  next
    case (Some groups)
    obtain data cksm status where "groups = (data, cksm, status)"
      by (cases groups) auto
    with Some have "match_response response = Some (data, cksm, status)" by simp
    from match_response_sound [OF this] no_match show ?thesis by blast
  qed
  then have "parseTextResponse response = None" by (simp add: parseTextResponse_def)
  with app_parseTextResponse_no_match [OF m] show ?thesis by simp
qed

theorem parseTextResponse_no_fallback_witness:
  "\<not> (\<exists>data cksm status rest.
        ''ABC'' @ CRLF = data @ CRLF @ ''CKSM:'' @ cksm @ CRLF @ ''CMD '' @ status @ CRLF @ rest
        \<and> CR \<notin> set data \<and> length cksm = 8 \<and> list_all is_upper_hex cksm
        \<and> (status = ''OK'' \<or> status = ''Fail!''))
   \<and> parseTextResponse (''ABC'' @ CRLF) = None
   \<and> app_parseTextResponse (''ABC'' @ CRLF) = Some ''ABC''"
proof -
  have no_match: "\<not> (\<exists>data cksm status rest.
        ''ABC'' @ CRLF = data @ CRLF @ ''CKSM:'' @ cksm @ CRLF @ ''CMD '' @ status @ CRLF @ rest
        \<and> CR \<notin> set data \<and> length cksm = 8 \<and> list_all is_upper_hex cksm
        \<and> (status = ''OK'' \<or> status = ''Fail!''))"
  proof
    assume "\<exists>data cksm status rest.
        ''ABC'' @ CRLF = data @ CRLF @ ''CKSM:'' @ cksm @ CRLF @ ''CMD '' @ status @ CRLF @ rest
        \<and> CR \<notin> set data \<and> length cksm = 8 \<and> list_all is_upper_hex cksm
        \<and> (status = ''OK'' \<or> status = ''Fail!'')"
    then obtain data cksm status rest where
      eq: "''ABC'' @ CRLF = data @ CRLF @ ''CKSM:'' @ cksm @ CRLF @ ''CMD '' @ status @ CRLF @ rest"
      and ok: "CR \<notin> set data" "length cksm = 8" "list_all is_upper_hex cksm"
        "status = ''OK'' \<or> status = ''Fail!''"
      by blast
    have "match_response (''ABC'' @ CRLF) = Some (data, cksm, status)"
      unfolding eq by (rule match_response_complete [OF ok])
    then show False by (simp only: match_response_ABC option.distinct)
  qed
  from parseTextResponse_no_fallback [OF no_match]
  have "parseTextResponse (''ABC'' @ CRLF) = None" by blast
  with no_match app_ABC show ?thesis by blast
qed

text \<open>
  Claim C6 as stated fails on the response ABC followed by CR LF: its first segment
  is ABC, not empty, and the result is \<^verbatim>\<open>null\<close>.
\<close>

theorem parseTextResponse_no_fallback_counterexample:
  "parseTextResponse (''ABC'' @ CRLF) = None \<and> js_split CRLF (''ABC'' @ CRLF) = [''ABC'', []]"
proof
  show "parseTextResponse (''ABC'' @ CRLF) = None"
    unfolding parseTextResponse_def match_response_ABC by simp
  show "js_split CRLF (''ABC'' @ CRLF) = [''ABC'', []]"
    by (simp add: js_split_def CR_def LF_def CRLF_def)
qed

text \<open>
  Claim C7, as amended.  For every response of the form
  \<^verbatim>\<open><data>\r\nCKSM:<8-hex>\r\nCMD OK\r\n\<close>, whatever the eight checksum digits are,
  \<^verbatim>\<open>parseTextResponse\<close> returns the data, a plain string: the checksum is never
  compared with anything and no mismatch flag exists.
\<close>

theorem parseTextResponse_ok_any_checksum:
  assumes "CR \<notin> set data" and "length cksm = 8" and "list_all is_upper_hex cksm"
  shows "parseTextResponse (data @ CRLF @ ''CKSM:'' @ cksm @ CRLF @ ''CMD OK'' @ CRLF @ rest)
         = Some data"
proof -
  let ?resp = "data @ CRLF @ ''CKSM:'' @ cksm @ CRLF @ ''CMD '' @ ''OK'' @ CRLF @ rest"
  have same: "data @ CRLF @ ''CKSM:'' @ cksm @ CRLF @ ''CMD OK'' @ CRLF @ rest = ?resp"
    by simp
  have "CHR ''K'' \<in> set ?resp" by simp
  moreover have "\<not> is_js_space CHR ''K''" by (simp add: is_js_space_def)
  ultimately have trim: "js_trim ?resp \<noteq> []" by (rule js_trim_nonempty)
  then have ne: "?resp \<noteq> []" by (auto simp: js_trim_def)
  have m: "match_response ?resp = Some (data, cksm, ''OK'')"
    by (rule match_response_complete [OF assms]) simp
  show ?thesis
    unfolding same using trim ne m by (simp add: parseTextResponse_def)
qed

theorem parseTextResponse_ok_any_checksum_witness:
  "CR \<notin> set ''DATA'' \<and> length ''00000000'' = 8 \<and> list_all is_upper_hex ''00000000''
   \<and> parseTextResponse (''DATA'' @ CRLF @ ''CKSM:'' @ ''00000000'' @ CRLF @ ''CMD OK'' @ CRLF @ [])
       = Some ''DATA''"
proof -
  have h1: "CR \<notin> set ''DATA''" by (simp add: CR_def)
  have h2: "length ''00000000'' = 8" by simp
  have h3: "list_all is_upper_hex ''00000000''" by (simp add: is_upper_hex_def)
  from parseTextResponse_ok_any_checksum [OF h1 h2 h3, of "[]"] h1 h2 h3
  show ?thesis by blast
qed

text \<open>
  Claim C7 as stated says that the result carries \<^verbatim>\<open>checksumMismatch=true\<close>.  The
  result for the checksum 00000000 is the bare string DATA, the same value as for
  0000011A, the sum of the four character codes.
\<close>

theorem parseTextResponse_no_mismatch_tag_counterexample:
  "parseTextResponse (''DATA'' @ CRLF @ ''CKSM:00000000'' @ CRLF @ ''CMD OK'' @ CRLF) = Some ''DATA''
   \<and> parseTextResponse (''DATA'' @ CRLF @ ''CKSM:0000011A'' @ CRLF @ ''CMD OK'' @ CRLF) = Some ''DATA''
   \<and> sum_list (map of_char ''DATA'') = (0x11A :: nat)"
  by (simp add: parseTextResponse_def match_response_def js_trim_def is_js_space_def
      is_upper_hex_def strip_prefix_def CR_def LF_def CRLF_def)

subsection \<open>Record parser: proofs and claims\<close>

lemma parseRecord_eq:
  "parseRecord toISOString di record =
     (if emitted record then Some (Unprocessed (common_fields record)) else None)"
  by (simp add: parseRecord_def emitted_def record_type_def common_fields_def
      assign_const_def Let_def)

lemma processRecords_loop_eq:
  "processRecords_loop toISOString di records acc
   = acc @ map (\<lambda>r. Unprocessed (common_fields r)) (filter emitted records)"
  by (induction records arbitrary: acc) (simp_all add: parseRecord_eq)

lemma processRecords_eq:
  "processRecords toISOString di records
   = map (\<lambda>r. Unprocessed (common_fields r)) (filter emitted records)"
  by (simp add: processRecords_def processRecords_loop_eq)


lemmas js_eval =
  js_split_def parseInt_def parseInt_field_def field_at_def is_js_space_def
  is_radix_digit_def digit_value_def digits_to_nat_def js_add_def or_zero_def

lemma emitted_examples:
  "\<not> emitted line_glucose" "\<not> emitted line_control" "emitted line_insulin"
  by (simp_all add: emitted_def record_type_def js_eval)

lemma common_fields_insulin:
  "common_fields line_insulin =
     \<lparr>r_type = Some 10, r_index = Some 5,
      r_timestamp = \<lparr>d_year = Some 2024, d_monthIndex = Some 5, d_day = Some 15,
                     d_hours = Some 10, d_minutes = Some 30, d_seconds = Some 0\<rparr>,
      r_raw = line_insulin\<rparr>"
  by (simp add: common_fields_def js_eval)

text \<open>
  Claim C1.  A line with at least 8 fields whose type code is 7, 9 or 6 makes
  \<^verbatim>\<open>parseRecord\<close> return \<^verbatim>\<open>null\<close>: the case of the \<^verbatim>\<open>switch\<close> assigns to the constant
  \<^verbatim>\<open>processedRecord\<close>, and the TypeError is caught.  So \<^verbatim>\<open>processRecords\<close> returns, in
  order, the common fields of the lines with at least 8 fields and another type code,
  and nothing else: no glucose, ketone or time-change record.
\<close>

theorem parseRecord_typed_lines_null:
  "(8 \<le> length (js_split '','' record) \<and> record_type record \<in> {Some 7, Some 9, Some 6}
      \<longrightarrow> parseRecord toISOString di record = None)
   \<and> processRecords toISOString di records
       = map (\<lambda>r. Unprocessed (common_fields r)) (filter emitted records)
   \<and> (\<forall>p \<in> set (processRecords toISOString di records).
         \<exists>b. p = Unprocessed b \<and> r_type b \<notin> {Some 7, Some 9, Some 6})"
proof (intro conjI)
  show "8 \<le> length (js_split '','' record) \<and> record_type record \<in> {Some 7, Some 9, Some 6}
      \<longrightarrow> parseRecord toISOString di record = None"
    by (auto simp: parseRecord_eq emitted_def)
  show "processRecords toISOString di records
       = map (\<lambda>r. Unprocessed (common_fields r)) (filter emitted records)"
    by (rule processRecords_eq)
  show "\<forall>p \<in> set (processRecords toISOString di records).
         \<exists>b. p = Unprocessed b \<and> r_type b \<notin> {Some 7, Some 9, Some 6}"
  proof
    fix p assume "p \<in> set (processRecords toISOString di records)"
    then obtain r where r: "emitted r" "p = Unprocessed (common_fields r)"
      by (auto simp: processRecords_eq)
    have "r_type (common_fields r) = record_type r"
      by (simp add: common_fields_def record_type_def Let_def)
    with r show "\<exists>b. p = Unprocessed b \<and> r_type b \<notin> {Some 7, Some 9, Some 6}"
      by (auto simp: emitted_def)
  qed
qed

theorem parseRecord_typed_lines_null_witness:
  "8 \<le> length (js_split '','' line_glucose)
   \<and> record_type line_glucose \<in> {Some 7, Some 9, Some 6}
   \<and> parseRecord example_toISOString (Some example_device) line_glucose = None
   \<and> processRecords example_toISOString (Some example_device) [line_glucose, line_insulin]
       = [Unprocessed
            \<lparr>r_type = Some 10, r_index = Some 5,
             r_timestamp = \<lparr>d_year = Some 2024, d_monthIndex = Some 5, d_day = Some 15,
                            d_hours = Some 10, d_minutes = Some 30, d_seconds = Some 0\<rparr>,
             r_raw = line_insulin\<rparr>]"
proof -
  have h: "8 \<le> length (js_split '','' line_glucose)
           \<and> record_type line_glucose \<in> {Some 7, Some 9, Some 6}"
    by (simp add: record_type_def js_eval)
  have f: "filter emitted [line_glucose, line_insulin] = [line_insulin]"
    using emitted_examples by simp
  from parseRecord_typed_lines_null
         [of line_glucose example_toISOString "Some example_device" "[line_glucose, line_insulin]"]
  have "parseRecord example_toISOString (Some example_device) line_glucose = None"
    and "processRecords example_toISOString (Some example_device) [line_glucose, line_insulin]
         = map (\<lambda>r. Unprocessed (common_fields r)) (filter emitted [line_glucose, line_insulin])"
    using h by blast+
  then show ?thesis
    using h by (simp only: f list.map common_fields_insulin simp_thms)
qed


lemma processGlucoseRecord_control:
  "parseInt_field (field_at flds 10) = Some 0
   \<Longrightarrow> processGlucoseRecord toISOString di flds b = None"
  by (simp add: processGlucoseRecord_def)

lemma processGlucoseRecord_value:
  assumes "parseInt_field (field_at flds 10) \<noteq> Some 0"
    and "glucose_value (field_at flds 8) = Some (v, anns)"
    and "toISOString (r_timestamp b) = Some str"
  shows "processGlucoseRecord toISOString (Some info) flds b =
     Some (Glucose
       \<lparr>g_index = r_index b, g_timestamp = r_timestamp b, g_raw = r_raw b,
        g_value = v, g_unit = ''mg/dL'', g_isControlSolution = False,
        g_annotations = (if length anns > 0 then Some anns else None),
        g_deviceTime = remove1 (CHR ''Z'') str, g_jsDate = r_timestamp b,
        g_deviceId = deviceId info, g_serialNumber = serialNumber info\<rparr>)"
  using assms by (simp add: processGlucoseRecord_def formatDeviceTime_def)

lemma split_examples:
  "js_split '','' line_glucose
   = [''7'', ''1'', ''6'', ''15'', ''24'', ''10'', ''30'', ''0'', ''120'', ''0'', ''1'']"
  "js_split '','' line_control
   = [''7'', ''2'', ''6'', ''15'', ''24'', ''10'', ''35'', ''0'', ''95'', ''0'', ''0'']"
  "js_split '','' line_HI
   = [''7'', ''1'', ''6'', ''15'', ''24'', ''10'', ''30'', ''0'', ''HI'', ''0'', ''1'']"
  "js_split '','' line_LO
   = [''7'', ''1'', ''6'', ''15'', ''24'', ''10'', ''30'', ''0'', ''LO'', ''0'', ''1'']"
  "js_split '','' line_spec_HI
   = [''7'', ''1'', ''6'', ''15'', ''24'', ''10'', ''30'', ''HI'', ''0'', ''0'', ''0'']"
  by (simp_all add: js_split_def)

lemma parseInt_examples:
  "parseInt ''0'' = Some 0" "parseInt ''1'' = Some 1" "parseInt ''120'' = Some 120"
  by (simp_all add: js_eval)

text \<open>
  Claim C3 at a batch of one normal and one control-solution glucose line: the claim
  expects one record, \<^verbatim>\<open>processRecords\<close> returns none.  \<^verbatim>\<open>processGlucoseRecord\<close> itself
  does what the claim says (it drops the control line and turns the normal one into a
  glucose record of value 120); its result is lost in \<^verbatim>\<open>parseRecord\<close>.
\<close>

theorem processRecords_glucose_batch:
  "processRecords toISOString di [line_glucose, line_control] = []
   \<and> processGlucoseRecord toISOString di (js_split '','' line_control) b2 = None
   \<and> (\<exists>g. processGlucoseRecord example_toISOString (Some info) (js_split '','' line_glucose) b1
             = Some (Glucose g)
          \<and> g_value g = 120 \<and> g_annotations g = None \<and> g_raw g = r_raw b1)"
proof (intro conjI)
  show "processRecords toISOString di [line_glucose, line_control] = []"
    using emitted_examples by (simp add: processRecords_eq)
  show "processGlucoseRecord toISOString di (js_split '','' line_control) b2 = None"
    by (rule processGlucoseRecord_control)
       (simp add: split_examples field_at_def parseInt_field_def parseInt_examples)
  have nc: "parseInt_field (field_at (js_split '','' line_glucose) 10) \<noteq> Some 0"
    by (simp add: split_examples field_at_def parseInt_field_def parseInt_examples)
  have v: "glucose_value (field_at (js_split '','' line_glucose) 8) = Some (120, [])"
    by (simp add: split_examples field_at_def glucose_value_def parseInt_field_def
        parseInt_examples)
  have t: "example_toISOString (r_timestamp b1) = Some ''2024-06-15T10:30:00.000Z''"
    by simp
  show "\<exists>g. processGlucoseRecord example_toISOString (Some info) (js_split '','' line_glucose) b1
             = Some (Glucose g)
          \<and> g_value g = 120 \<and> g_annotations g = None \<and> g_raw g = r_raw b1"
    unfolding processGlucoseRecord_value [where toISOString = example_toISOString and b = b1, OF nc v t] by simp
qed

text \<open>
  Claim C4, as amended.  \<^verbatim>\<open>processGlucoseRecord\<close> reads the value in field 8 and the
  control-solution flag in field 10.  When field 10 does not parse to 0 and the
  timestamp can be formatted, the value HI gives a glucose record with value 501 and
  the annotation high with threshold 500, the value LO gives 19 and the annotation low
  with threshold 20.
\<close>

theorem processGlucoseRecord_HI_LO:
  assumes "parseInt_field (field_at flds 10) \<noteq> Some 0"
    and "toISOString (r_timestamp b) = Some str"
  shows "(field_at flds 8 = Some ''HI'' \<longrightarrow>
          processGlucoseRecord toISOString (Some info) flds b =
            Some (Glucose
              \<lparr>g_index = r_index b, g_timestamp = r_timestamp b, g_raw = r_raw b,
               g_value = 501, g_unit = ''mg/dL'', g_isControlSolution = False,
               g_annotations =
                 Some [\<lparr>a_code = ''bg/out-of-range'', a_value = ''high'', a_threshold = 500\<rparr>],
               g_deviceTime = remove1 (CHR ''Z'') str, g_jsDate = r_timestamp b,
               g_deviceId = deviceId info, g_serialNumber = serialNumber info\<rparr>))
       \<and> (field_at flds 8 = Some ''LO'' \<longrightarrow>
          processGlucoseRecord toISOString (Some info) flds b =
            Some (Glucose
              \<lparr>g_index = r_index b, g_timestamp = r_timestamp b, g_raw = r_raw b,
               g_value = 19, g_unit = ''mg/dL'', g_isControlSolution = False,
               g_annotations =
                 Some [\<lparr>a_code = ''bg/out-of-range'', a_value = ''low'', a_threshold = 20\<rparr>],
               g_deviceTime = remove1 (CHR ''Z'') str, g_jsDate = r_timestamp b,
               g_deviceId = deviceId info, g_serialNumber = serialNumber info\<rparr>))"
proof (intro conjI impI)
  assume hi: "field_at flds 8 = Some ''HI''"
  have "glucose_value (field_at flds 8)
        = Some (501, [\<lparr>a_code = ''bg/out-of-range'', a_value = ''high'', a_threshold = 500\<rparr>])"
    by (simp add: hi glucose_value_def)
  from processGlucoseRecord_value [where toISOString = toISOString and b = b, OF assms(1) this assms(2)]
  show "processGlucoseRecord toISOString (Some info) flds b =
            Some (Glucose
              \<lparr>g_index = r_index b, g_timestamp = r_timestamp b, g_raw = r_raw b,
               g_value = 501, g_unit = ''mg/dL'', g_isControlSolution = False,
               g_annotations =
                 Some [\<lparr>a_code = ''bg/out-of-range'', a_value = ''high'', a_threshold = 500\<rparr>],
               g_deviceTime = remove1 (CHR ''Z'') str, g_jsDate = r_timestamp b,
               g_deviceId = deviceId info, g_serialNumber = serialNumber info\<rparr>)"
    by simp
next
  assume lo: "field_at flds 8 = Some ''LO''"
  have "glucose_value (field_at flds 8)
        = Some (19, [\<lparr>a_code = ''bg/out-of-range'', a_value = ''low'', a_threshold = 20\<rparr>])"
    by (simp add: lo glucose_value_def)
  from processGlucoseRecord_value [where toISOString = toISOString and b = b, OF assms(1) this assms(2)]
  show "processGlucoseRecord toISOString (Some info) flds b =
            Some (Glucose
              \<lparr>g_index = r_index b, g_timestamp = r_timestamp b, g_raw = r_raw b,
               g_value = 19, g_unit = ''mg/dL'', g_isControlSolution = False,
               g_annotations =
                 Some [\<lparr>a_code = ''bg/out-of-range'', a_value = ''low'', a_threshold = 20\<rparr>],
               g_deviceTime = remove1 (CHR ''Z'') str, g_jsDate = r_timestamp b,
               g_deviceId = deviceId info, g_serialNumber = serialNumber info\<rparr>)"
    by simp
qed

theorem processGlucoseRecord_HI_LO_witness:
  "parseInt_field (field_at (js_split '','' line_HI) 10) \<noteq> Some 0
   \<and> example_toISOString (r_timestamp (common_fields line_HI)) = Some ''2024-06-15T10:30:00.000Z''
   \<and> field_at (js_split '','' line_HI) 8 = Some ''HI''
   \<and> (\<exists>g. processGlucoseRecord example_toISOString (Some example_device)
             (js_split '','' line_HI) (common_fields line_HI) = Some (Glucose g)
          \<and> g_value g = 501
          \<and> g_annotations g
              = Some [\<lparr>a_code = ''bg/out-of-range'', a_value = ''high'', a_threshold = 500\<rparr>]
          \<and> g_deviceTime g = ''2024-06-15T10:30:00.000'')
   \<and> parseInt_field (field_at (js_split '','' line_LO) 10) \<noteq> Some 0
   \<and> field_at (js_split '','' line_LO) 8 = Some ''LO''
   \<and> (\<exists>g. processGlucoseRecord example_toISOString (Some example_device)
             (js_split '','' line_LO) (common_fields line_LO) = Some (Glucose g)
          \<and> g_value g = 19
          \<and> g_annotations g
              = Some [\<lparr>a_code = ''bg/out-of-range'', a_value = ''low'', a_threshold = 20\<rparr>]
          \<and> g_deviceTime g = ''2024-06-15T10:30:00.000'')"
proof -
  have hi10: "parseInt_field (field_at (js_split '','' line_HI) 10) \<noteq> Some 0"
    by (simp add: split_examples field_at_def parseInt_field_def parseInt_examples)
  have lo10: "parseInt_field (field_at (js_split '','' line_LO) 10) \<noteq> Some 0"
    by (simp add: split_examples field_at_def parseInt_field_def parseInt_examples)
  have hi8: "field_at (js_split '','' line_HI) 8 = Some ''HI''"
    by (simp add: split_examples field_at_def)
  have lo8: "field_at (js_split '','' line_LO) 8 = Some ''LO''"
    by (simp add: split_examples field_at_def)
  have t: "example_toISOString ts = Some ''2024-06-15T10:30:00.000Z''" for ts :: js_date
    by simp
  from processGlucoseRecord_HI_LO [where toISOString = example_toISOString
         and b = "common_fields line_HI" and info = example_device, OF hi10 t] hi8
  have hi: "\<exists>g. processGlucoseRecord example_toISOString (Some example_device)
             (js_split '','' line_HI) (common_fields line_HI) = Some (Glucose g)
          \<and> g_value g = 501
          \<and> g_annotations g
              = Some [\<lparr>a_code = ''bg/out-of-range'', a_value = ''high'', a_threshold = 500\<rparr>]
          \<and> g_deviceTime g = ''2024-06-15T10:30:00.000''"
    by simp
  from processGlucoseRecord_HI_LO [where toISOString = example_toISOString
         and b = "common_fields line_LO" and info = example_device, OF lo10 t] lo8
  have lo: "\<exists>g. processGlucoseRecord example_toISOString (Some example_device)
             (js_split '','' line_LO) (common_fields line_LO) = Some (Glucose g)
          \<and> g_value g = 19
          \<and> g_annotations g
              = Some [\<lparr>a_code = ''bg/out-of-range'', a_value = ''low'', a_threshold = 20\<rparr>]
          \<and> g_deviceTime g = ''2024-06-15T10:30:00.000''"
    by simp
  from hi10 lo10 hi8 lo8 t hi lo show ?thesis by blast
qed

text \<open>
  Claim C4 as stated fails on its own line \<^verbatim>\<open>7,1,6,15,24,10,30,HI,0,0,0\<close>: HI is
  field 7, the value field 8 is 0 and field 10 is 0, so \<^verbatim>\<open>processGlucoseRecord\<close> drops
  the line as a control-solution test, and \<^verbatim>\<open>parseRecord\<close> returns \<^verbatim>\<open>null\<close>.
\<close>

theorem processGlucoseRecord_spec_line_counterexample:
  "field_at (js_split '','' line_spec_HI) 8 = Some ''0''
   \<and> parseInt_field (field_at (js_split '','' line_spec_HI) 10) = Some 0
   \<and> processGlucoseRecord example_toISOString (Some example_device)
        (js_split '','' line_spec_HI) (common_fields line_spec_HI) = None
   \<and> parseRecord example_toISOString (Some example_device) line_spec_HI = None"
proof -
  have f8: "field_at (js_split '','' line_spec_HI) 8 = Some ''0''"
    by (simp add: split_examples field_at_def)
  have f10: "parseInt_field (field_at (js_split '','' line_spec_HI) 10) = Some 0"
    by (simp add: split_examples field_at_def parseInt_field_def parseInt_examples)
  have "\<not> emitted line_spec_HI"
    by (simp add: emitted_def record_type_def js_eval)
  then have "parseRecord example_toISOString (Some example_device) line_spec_HI = None"
    by (simp add: parseRecord_eq)
  with f8 f10 processGlucoseRecord_control [OF f10] show ?thesis by blast
qed

subsection \<open>Handshake: the calls it makes\<close>

lemmas session_defs =
  emit_def delay_def progress_def call_openDevice_def call_closeDevice_def
  call_claimInterface_def call_writeData_def call_readData_def

lemma closes_append [simp]: "closes (xs @ ys) = closes xs + closes ys"
  by (simp add: closes_def)

lemma closes_simps [simp]:
  "closes [] = 0"
  "closes (e # tr) = (if is_close e then 1 else 0) + closes tr"
  by (simp_all add: closes_def)

lemma written_opcodes_append [simp]:
  "written_opcodes (xs @ ys) = written_opcodes xs @ written_opcodes ys"
  by (simp add: written_opcodes_def List.map_filter_def)

lemma written_opcodes_simps [simp]:
  "written_opcodes [] = []"
  "written_opcodes (e # tr)
   = (case write_opcode e of None \<Rightarrow> [] | Some c \<Rightarrow> [c]) @ written_opcodes tr"
  by (simp_all add: written_opcodes_def List.map_filter_def split: option.splits)

lemma attempt_events_closes [simp]: "closes (attempt_events name frame k) = 0"
  by (induction name frame k rule: attempt_events.induct) simp_all

lemma attempt_events_opcodes [simp]:
  "written_opcodes (attempt_events name (c # bytes) k) = replicate k c"
  by (induction name "c # bytes" k rule: attempt_events.induct) simp_all

text \<open>The three turns of the retry loop, written out.\<close>

lemma write_attempts_unfold:
  "write_attempts usb frame 0 (- 1) s =
     (case writeData usb (trace s) (p_deviceName s) frame of
        Inl e \<Rightarrow> (Inl e, s\<lparr>trace := trace s @ attempt_events (p_deviceName s) frame 1\<rparr>)
      | Inr n1 \<Rightarrow>
          if 0 \<le> n1
          then (Inr n1, s\<lparr>trace := trace s @ attempt_events (p_deviceName s) frame 1\<rparr>)
          else
            (case writeData usb
                    (trace s @ [WriteData (p_deviceName s) frame, Delay RETRY_DELAY])
                    (p_deviceName s) frame of
               Inl e \<Rightarrow> (Inl e, s\<lparr>trace := trace s @ attempt_events (p_deviceName s) frame 2\<rparr>)
             | Inr n2 \<Rightarrow>
                 if 0 \<le> n2
                 then (Inr n2, s\<lparr>trace := trace s @ attempt_events (p_deviceName s) frame 2\<rparr>)
                 else
                   (case writeData usb
                           (trace s @ [WriteData (p_deviceName s) frame, Delay RETRY_DELAY,
                                       WriteData (p_deviceName s) frame, Delay RETRY_DELAY])
                           (p_deviceName s) frame of
                      Inl e \<Rightarrow>
                        (Inl e, s\<lparr>trace := trace s @ attempt_events (p_deviceName s) frame 3\<rparr>)
                    | Inr n3 \<Rightarrow>
                        (Inr n3, s\<lparr>trace := trace s @ attempt_events (p_deviceName s) frame 3\<rparr>))))"
  by (simp add: write_attempts.simps maxAttempts_def session_defs numeral_eq_Suc split: sum.splits)


lemma attempt_events_3:
  "attempt_events name frame 1 = [WriteData name frame]"
  "attempt_events name frame 2 = [WriteData name frame, Delay RETRY_DELAY, WriteData name frame]"
  "attempt_events name frame 3
   = [WriteData name frame, Delay RETRY_DELAY, WriteData name frame, Delay RETRY_DELAY,
      WriteData name frame]"
  by (simp_all add: numeral_eq_Suc)

lemma write_attempts_events:
  "\<exists>k. 1 \<le> k \<and> k \<le> 3
     \<and> snd (write_attempts usb frame 0 (- 1) s)
         = s\<lparr>trace := trace s @ attempt_events (p_deviceName s) frame k\<rparr>"
proof -
  let ?P = "\<lambda>k. snd (write_attempts usb frame 0 (- 1) s)
                 = s\<lparr>trace := trace s @ attempt_events (p_deviceName s) frame k\<rparr>"
  have "?P 1 \<or> ?P 2 \<or> ?P 3"
    by (simp add: write_attempts_unfold split: sum.splits)
  then show ?thesis
    by (metis numeral_le_iff one_le_numeral order_refl semiring_norm(68,69,72,73))
qed

lemma readInitResponse_events:
  "snd (readInitResponse usb s) = s\<lparr>trace := trace s @ [ReadData (p_deviceName s) TIMEOUT]\<rparr>"
  by (simp add: readInitResponse_def session_defs split: sum.splits option.splits)


lemma createHIDFrame_None_Cons: "createHIDFrame c None = c # replicate 63 0"
  by (rule createHIDFrame_None)

lemma sendInitCommand_events:
  "\<exists>k evs. 1 \<le> k \<and> k \<le> 3
     \<and> snd (sendInitCommand usb c s) = s\<lparr>trace := trace s @ evs\<rparr>
     \<and> written_opcodes evs = replicate k c \<and> closes evs = 0"
proof -
  define frame where "frame = createHIDFrame c None"
  obtain k where k: "1 \<le> k" "k \<le> 3"
    and w: "snd (write_attempts usb frame 0 (- 1) s)
            = s\<lparr>trace := trace s @ attempt_events (p_deviceName s) frame k\<rparr>"
    using write_attempts_events by blast
  define att where "att = attempt_events (p_deviceName s) frame k"
  obtain r where r: "write_attempts usb frame 0 (- 1) s = (r, s\<lparr>trace := trace s @ att\<rparr>)"
    using w unfolding att_def by (cases "write_attempts usb frame 0 (- 1) s") simp
  have ops: "written_opcodes att = replicate k c" "closes att = 0"
    by (simp_all add: att_def frame_def createHIDFrame_None_Cons)
  have "snd (sendInitCommand usb c s) = s\<lparr>trace := trace s @ att\<rparr>
        \<or> snd (sendInitCommand usb c s)
            = s\<lparr>trace := trace s @ (att @ [ReadData (p_deviceName s) TIMEOUT])\<rparr>"
    unfolding sendInitCommand_def Let_def frame_def [symmetric] r
    by (simp add: readInitResponse_events split_beta split: sum.splits)
  then show ?thesis
  proof
    assume "snd (sendInitCommand usb c s) = s\<lparr>trace := trace s @ att\<rparr>"
    with k ops show ?thesis
      by (intro exI [of _ k] exI [of _ att]) simp
  next
    assume "snd (sendInitCommand usb c s)
            = s\<lparr>trace := trace s @ (att @ [ReadData (p_deviceName s) TIMEOUT])\<rparr>"
    with k ops show ?thesis
      by (intro exI [of _ k] exI [of _ "att @ [ReadData (p_deviceName s) TIMEOUT]"]) simp
  qed
qed

lemma sendWakeUpCommand_events:
  "\<exists>evs. snd (sendWakeUpCommand usb s) = s\<lparr>trace := trace s @ evs\<rparr>
     \<and> written_opcodes evs = [0] \<and> closes evs = 0"
proof -
  let ?w = "WriteData (p_deviceName s) (createHIDFrame 0 None)"
  have "snd (sendWakeUpCommand usb s) = s\<lparr>trace := trace s @ [?w]\<rparr>
        \<or> snd (sendWakeUpCommand usb s)
            = s\<lparr>trace := trace s @ [?w, Delay 500, ReadData (p_deviceName s) 1000]\<rparr>"
    by (simp add: sendWakeUpCommand_def Let_def session_defs split: sum.splits)
  then show ?thesis
  proof
    assume "snd (sendWakeUpCommand usb s) = s\<lparr>trace := trace s @ [?w]\<rparr>"
    then show ?thesis
      by (intro exI [of _ "[?w]"]) (simp add: createHIDFrame_None_Cons)
  next
    assume "snd (sendWakeUpCommand usb s)
            = s\<lparr>trace := trace s @ [?w, Delay 500, ReadData (p_deviceName s) 1000]\<rparr>"
    then show ?thesis
      by (intro exI [of _ "[?w, Delay 500, ReadData (p_deviceName s) 1000]"])
         (simp add: createHIDFrame_None_Cons)
  qed
qed



lemma init_loop_events:
  "i \<le> length INIT_SEQUENCE \<Longrightarrow>
   \<exists>ks evs. snd (init_loop usb i s) = s\<lparr>trace := trace s @ evs\<rparr>
     \<and> length ks \<le> length INIT_SEQUENCE - i \<and> attempts_ok ks
     \<and> written_opcodes evs = repeated ks (drop i INIT_SEQUENCE) \<and> closes evs = 0
     \<and> (fst (init_loop usb i s) = Inr True \<longrightarrow> length ks = length INIT_SEQUENCE - i)"
proof (induction n \<equiv> "length INIT_SEQUENCE - i" arbitrary: i s)
  case 0
  then have "init_loop usb i s = (Inr True, s)"
    by (simp add: init_loop.simps)
  then show ?case
    using 0 by (intro exI [of _ "[]"]) (simp add: attempts_ok_def)
next
  case (Suc n)
  then have True: "i < length INIT_SEQUENCE" by simp
  define c where "c = INIT_SEQUENCE ! i"
  have dr: "drop i INIT_SEQUENCE = c # drop (Suc i) INIT_SEQUENCE"
    using True by (simp add: c_def Cons_nth_drop_Suc)
  obtain k evs1 where k: "1 \<le> k" "k \<le> 3"
    and s1: "snd (sendInitCommand usb c s) = s\<lparr>trace := trace s @ evs1\<rparr>"
    and ev1: "written_opcodes evs1 = replicate k c" "closes evs1 = 0"
    using sendInitCommand_events by blast
  obtain success where sc: "sendInitCommand usb c s = (success, s\<lparr>trace := trace s @ evs1\<rparr>)"
    using s1 by (cases "sendInitCommand usb c s") simp
  show ?case
  proof (cases success)
    case False
    then have "init_loop usb i s
               = (Inl (InitCommandFailed (i + 1) c), s\<lparr>trace := trace s @ evs1\<rparr>)"
      using True sc by (simp add: init_loop.simps [of usb i s] c_def [symmetric])
    then show ?thesis
      using True k ev1 dr
      by (intro exI [of _ "[k]"] exI [of _ evs1]) (simp add: attempts_ok_def)
  next
    case success: True
    define s2 where "s2 = delay RETRY_DELAY (s\<lparr>trace := trace s @ evs1\<rparr>)"
    have step: "init_loop usb i s = init_loop usb (Suc i) s2"
      using True sc success
      by (simp add: init_loop.simps [of usb i s] c_def [symmetric] s2_def)
    have n: "n = length INIT_SEQUENCE - Suc i" and le: "Suc i \<le> length INIT_SEQUENCE"
      using Suc.hyps(2) True by simp_all
    from Suc.hyps(1) [OF n le, of s2]
    obtain ks evs where ih: "snd (init_loop usb (Suc i) s2) = s2\<lparr>trace := trace s2 @ evs\<rparr>"
      "length ks \<le> length INIT_SEQUENCE - Suc i" "attempts_ok ks"
      "written_opcodes evs = repeated ks (drop (Suc i) INIT_SEQUENCE)" "closes evs = 0"
      "fst (init_loop usb (Suc i) s2) = Inr True \<longrightarrow> length ks = length INIT_SEQUENCE - Suc i"
      by blast
    have tr2: "s2\<lparr>trace := trace s2 @ evs\<rparr>
               = s\<lparr>trace := trace s @ (evs1 @ Delay RETRY_DELAY # evs)\<rparr>"
      by (simp add: s2_def session_defs)
    show ?thesis
      using ih k ev1 dr True
      by (intro exI [of _ "k # ks"] exI [of _ "evs1 @ Delay RETRY_DELAY # evs"])
         (auto simp: step tr2 attempts_ok_def)
  qed
qed

lemma executeInitSequence_events:
  "\<exists>ks evs. snd (executeInitSequence usb s) = s\<lparr>trace := trace s @ evs\<rparr>
     \<and> length ks \<le> length INIT_SEQUENCE \<and> attempts_ok ks
     \<and> written_opcodes evs = 0 # repeated ks INIT_SEQUENCE \<and> closes evs = 0
     \<and> (fst (executeInitSequence usb s) = Inr True \<longrightarrow> length ks = length INIT_SEQUENCE)"
proof -
  obtain evs0 where w: "snd (sendWakeUpCommand usb s) = s\<lparr>trace := trace s @ evs0\<rparr>"
    and ev0: "written_opcodes evs0 = [0]" "closes evs0 = 0"
    using sendWakeUpCommand_events by blast
  let ?s1 = "delay 60000 (s\<lparr>trace := trace s @ evs0\<rparr>)"
  have ex: "executeInitSequence usb s = init_loop usb 0 ?s1"
    using w by (simp add: executeInitSequence_def split_beta)
  obtain ks evs where l: "snd (init_loop usb 0 ?s1) = ?s1\<lparr>trace := trace ?s1 @ evs\<rparr>"
    "length ks \<le> length INIT_SEQUENCE" "attempts_ok ks"
    "written_opcodes evs = repeated ks INIT_SEQUENCE" "closes evs = 0"
    "fst (init_loop usb 0 ?s1) = Inr True \<longrightarrow> length ks = length INIT_SEQUENCE"
    using init_loop_events [of 0 usb ?s1] by auto
  show ?thesis
    using l ev0
    by (intro exI [of _ ks] exI [of _ "evs0 @ Delay 60000 # evs"])
       (simp add: ex session_defs)
qed

lemma p_deviceName_sendInitCommand [simp]:
  "p_deviceName (snd (sendInitCommand usb c s)) = p_deviceName s"
  using sendInitCommand_events [of usb c s] by auto

lemma sendInitCommand_all_negative:
  assumes "\<forall>tr. \<exists>n<0. writeData usb tr (p_deviceName s) (createHIDFrame c None) = Inr n"
  shows "sendInitCommand usb c s
         = (False, s\<lparr>trace := trace s @ attempt_events (p_deviceName s) (createHIDFrame c None) 3\<rparr>)"
proof -
  define frame where "frame = createHIDFrame c None"
  have neg: "\<exists>n<0. writeData usb tr (p_deviceName s) frame = Inr n" for tr
    using assms by (simp add: frame_def)
  obtain n1 where n1: "n1 < 0" "writeData usb (trace s) (p_deviceName s) frame = Inr n1"
    using neg by blast
  obtain n2 where n2: "n2 < 0"
    "writeData usb (trace s @ [WriteData (p_deviceName s) frame, Delay RETRY_DELAY])
       (p_deviceName s) frame = Inr n2"
    using neg by blast
  obtain n3 where n3: "n3 < 0"
    "writeData usb (trace s @ [WriteData (p_deviceName s) frame, Delay RETRY_DELAY,
                               WriteData (p_deviceName s) frame, Delay RETRY_DELAY])
       (p_deviceName s) frame = Inr n3"
    using neg by blast
  have "write_attempts usb frame 0 (- 1) s
        = (Inr n3, s\<lparr>trace := trace s @ attempt_events (p_deviceName s) frame 3\<rparr>)"
    using n1 n2 n3 by (simp add: write_attempts_unfold)
  then show ?thesis
    unfolding sendInitCommand_def Let_def frame_def [symmetric]
    using n3(1) by simp
qed

lemma init_loop_fails:
  assumes "\<forall>tr. \<exists>n<0. writeData usb tr name (createHIDFrame c None) = Inr n"
    and "c \<in> set (drop i INIT_SEQUENCE)" and "p_deviceName s = name"
  shows "\<exists>j c'. fst (init_loop usb i s) = Inl (InitCommandFailed j c')
           \<and> 1 \<le> j \<and> j \<le> length INIT_SEQUENCE \<and> c' = INIT_SEQUENCE ! (j - 1)"
  using assms(2,3)
proof (induction n \<equiv> "length INIT_SEQUENCE - i" arbitrary: i s)
  case 0
  then show ?case by simp
next
  case (Suc n)
  then have True: "i < length INIT_SEQUENCE" by simp
  define ci where "ci = INIT_SEQUENCE ! i"
  have dr: "drop i INIT_SEQUENCE = ci # drop (Suc i) INIT_SEQUENCE"
    using True by (simp add: ci_def Cons_nth_drop_Suc)
  obtain success s1 where sc: "sendInitCommand usb ci s = (success, s1)"
    by (cases "sendInitCommand usb ci s")
  have s1: "p_deviceName s1 = name"
    using p_deviceName_sendInitCommand [of usb ci s] sc Suc.prems by simp
  show ?case
  proof (cases success)
    case False
    then have "init_loop usb i s = (Inl (InitCommandFailed (i + 1) ci), s1)"
      using True sc by (simp add: init_loop.simps [of usb i s] ci_def [symmetric])
    then show ?thesis
      using True by (intro exI [of _ "i + 1"] exI [of _ ci]) (simp add: ci_def)
  next
    case success: True
    have "c \<noteq> ci"
    proof
      assume "c = ci"
      with assms(1) Suc.prems have "fst (sendInitCommand usb ci s) = False"
        by (simp add: sendInitCommand_all_negative)
      with sc success show False by simp
    qed
    with Suc.prems dr have mem: "c \<in> set (drop (Suc i) INIT_SEQUENCE)" by simp
    have step: "init_loop usb i s = init_loop usb (Suc i) (delay RETRY_DELAY s1)"
      using True sc success
      by (simp add: init_loop.simps [of usb i s] ci_def [symmetric])
    have n: "n = length INIT_SEQUENCE - Suc i" using Suc.hyps(2) by simp
    have "p_deviceName (delay RETRY_DELAY s1) = name"
      using s1 by (simp add: delay_def emit_def)
    from Suc.hyps(1) [OF n mem this] show ?thesis
      by (simp add: step)
  qed
qed


lemma sendWakeUpCommand_fields [simp]:
  "p_deviceName (snd (sendWakeUpCommand usb s)) = p_deviceName s"
  "deviceInfo (snd (sendWakeUpCommand usb s)) = deviceInfo s"
  "isConnected (snd (sendWakeUpCommand usb s)) = isConnected s"
  "closes (trace (snd (sendWakeUpCommand usb s))) = closes (trace s)"
  using sendWakeUpCommand_events [of usb s] by auto

lemma executeInitSequence_fields [simp]:
  "deviceInfo (snd (executeInitSequence usb s)) = deviceInfo s"
  "isConnected (snd (executeInitSequence usb s)) = isConnected s"
  "closes (trace (snd (executeInitSequence usb s))) = closes (trace s)"
  using executeInitSequence_events [of usb s] by auto

lemma executeInitSequence_fails:
  assumes "\<forall>tr. \<exists>n<0. writeData usb tr name (createHIDFrame c None) = Inr n"
    and "c \<in> set INIT_SEQUENCE" and "p_deviceName s = name"
  shows "\<exists>j c'. fst (executeInitSequence usb s) = Inl (InitCommandFailed j c')
           \<and> 1 \<le> j \<and> j \<le> length INIT_SEQUENCE \<and> c' = INIT_SEQUENCE ! (j - 1)"
proof -
  let ?s1 = "delay 60000 (snd (sendWakeUpCommand usb s))"
  have ex: "executeInitSequence usb s = init_loop usb 0 ?s1"
    by (simp add: executeInitSequence_def split_beta Let_def)
  have "p_deviceName ?s1 = name"
    using assms(3) by (simp add: delay_def emit_def)
  from init_loop_fails [OF assms(1) _ this, of 0] assms(2) show ?thesis
    by (simp add: ex)
qed

lemma protocol_initCommunication_fields [simp]:
  "deviceInfo (snd (protocol_initCommunication usb name s)) = deviceInfo s"
  "isConnected (snd (protocol_initCommunication usb name s)) = isConnected s"
  "closes (trace (snd (protocol_initCommunication usb name s))) = closes (trace s)"
  by (simp_all add: protocol_initCommunication_def split_beta Let_def split: sum.splits)

lemma protocol_initCommunication_fails:
  assumes "\<forall>tr. \<exists>n<0. writeData usb tr (Some name) (createHIDFrame c None) = Inr n"
    and "c \<in> set INIT_SEQUENCE"
  shows "\<exists>j c'. fst (protocol_initCommunication usb name s) = Inl (InitCommandFailed j c')
           \<and> 1 \<le> j \<and> j \<le> length INIT_SEQUENCE \<and> c' = INIT_SEQUENCE ! (j - 1)"
    and "\<not> isInitialized (snd (protocol_initCommunication usb name s))"
proof -
  let ?s0 = "s\<lparr>p_deviceName := Some name\<rparr>"
  from executeInitSequence_fails [OF assms, of ?s0]
  obtain j c' where f: "fst (executeInitSequence usb ?s0) = Inl (InitCommandFailed j c')"
    "1 \<le> j" "j \<le> length INIT_SEQUENCE" "c' = INIT_SEQUENCE ! (j - 1)"
    by auto
  then show "\<exists>j c'. fst (protocol_initCommunication usb name s) = Inl (InitCommandFailed j c')
           \<and> 1 \<le> j \<and> j \<le> length INIT_SEQUENCE \<and> c' = INIT_SEQUENCE ! (j - 1)"
    by (intro exI [of _ j] exI [of _ c'])
       (simp add: protocol_initCommunication_def split_beta Let_def)
  from f show "\<not> isInitialized (snd (protocol_initCommunication usb name s))"
    by (simp add: protocol_initCommunication_def split_beta Let_def)
qed

lemma initCommunication_fields [simp]:
  "deviceInfo (snd (initCommunication usb name s)) = deviceInfo s"
  "isConnected (snd (initCommunication usb name s)) = isConnected s"
  "closes (trace (snd (initCommunication usb name s))) = closes (trace s)"
  by (simp_all add: initCommunication_def split_beta Let_def split: sum.splits)

lemma connectToDevice_fields [simp]:
  "deviceInfo (snd (connectToDevice usb info s)) = deviceInfo s"
  "isConnected (snd (connectToDevice usb info s)) = isConnected s"
  "closes (trace (snd (connectToDevice usb info s))) = closes (trace s)"
  by (simp_all add: connectToDevice_def session_defs split_beta Let_def split: sum.splits)

lemma verifyConnection_fields [simp]:
  "deviceInfo (snd (verifyConnection usb s)) = deviceInfo s"
  "isConnected (snd (verifyConnection usb s)) = isConnected s"
  "closes (trace (snd (verifyConnection usb s))) = closes (trace s)"
  by (simp_all add: verifyConnection_def session_defs split_beta Let_def
      split: sum.splits option.splits)

lemma progress_fields [simp]:
  "deviceInfo (progress cb a b s) = deviceInfo s"
  "isConnected (progress cb a b s) = isConnected s"
  "closes (trace (progress cb a b s)) = closes (trace s)"
  by (simp_all add: progress_def emit_def)

lemma connect_body_fields:
  "deviceInfo (snd (connect_body usb info cb s)) = Some info"
  "closes (trace (snd (connect_body usb info cb s))) = closes (trace s)"
  by (simp_all add: connect_body_def split_beta Let_def split: sum.splits)

lemma connect_fields:
  "deviceInfo (snd (connect usb info cb s)) = Some info"
  "closes (trace (snd (connect usb info cb s))) = closes (trace s)"
  "isl (fst (connect usb info cb s)) \<Longrightarrow> \<not> isConnected (snd (connect usb info cb s))"
  by (simp_all add: connect_def connect_body_fields split_beta Let_def split: sum.splits)

lemma connectToDevice_succeeds:
  assumes "\<forall>tr name. openDevice usb tr name = Inr True"
    and "\<forall>tr name i. claimInterface usb tr name i = Inr True"
  shows "fst (connectToDevice usb info s) = Inr True"
  using assms by (simp add: connectToDevice_def session_defs Let_def)

lemma connect_init_failure:
  assumes "\<forall>tr name. openDevice usb tr name = Inr True"
    and "\<forall>tr name i. claimInterface usb tr name i = Inr True"
    and "\<forall>tr. \<exists>n<0. writeData usb tr (Some (deviceName info)) (createHIDFrame c None) = Inr n"
    and "c \<in> set INIT_SEQUENCE"
  shows "(\<exists>j c'. fst (connect usb info cb s) = Inl (InitCommandFailed j c')
            \<and> 1 \<le> j \<and> j \<le> length INIT_SEQUENCE \<and> c' = INIT_SEQUENCE ! (j - 1))
         \<and> \<not> isConnected (snd (connect usb info cb s))
         \<and> \<not> isInitialized (snd (connect usb info cb s))"
proof -
  let ?s1 = "progress cb 1 4 (s\<lparr>deviceInfo := Some info\<rparr>)"
  let ?s2 = "progress cb 2 4 (snd (connectToDevice usb info ?s1))"
  have c1: "fst (connectToDevice usb info ?s1) = Inr True"
    by (rule connectToDevice_succeeds [OF assms(1,2)])
  obtain j c' where f: "fst (protocol_initCommunication usb (deviceName info) ?s2)
                        = Inl (InitCommandFailed j c')"
    "1 \<le> j" "j \<le> length INIT_SEQUENCE" "c' = INIT_SEQUENCE ! (j - 1)"
    using protocol_initCommunication_fails(1) [OF assms(3,4), of ?s2] by blast
  have ni: "\<not> isInitialized (snd (protocol_initCommunication usb (deviceName info) ?s2))"
    by (rule protocol_initCommunication_fails(2) [OF assms(3,4)])
  have ic: "initCommunication usb (deviceName info) ?s2
            = (Inl (InitCommandFailed j c'), snd (protocol_initCommunication usb (deviceName info) ?s2))"
    using f(1) by (simp add: initCommunication_def split_beta)
  have body: "connect_body usb info cb s
              = (Inl (InitCommandFailed j c'), snd (protocol_initCommunication usb (deviceName info) ?s2))"
    using c1 ic
    by (simp add: connect_body_def split_beta Let_def)
  have "connect usb info cb s
        = (Inl (InitCommandFailed j c'),
           (snd (protocol_initCommunication usb (deviceName info) ?s2))\<lparr>isConnected := False\<rparr>)"
    by (simp add: connect_def body)
  with f ni show ?thesis by auto
qed

lemma sendInitCommand_first_write_ok:
  assumes "writeData usb (trace s) (p_deviceName s) (createHIDFrame c None) = Inr n" and "0 \<le> n"
  shows "fst (sendInitCommand usb c s) = True"
    and "written_opcodes (drop (length (trace s)) (trace (snd (sendInitCommand usb c s)))) = [c]"
proof -
  define frame where "frame = createHIDFrame c None"
  have w: "write_attempts usb frame 0 (- 1) s
           = (Inr n, s\<lparr>trace := trace s @ [WriteData (p_deviceName s) frame]\<rparr>)"
    using assms by (simp add: write_attempts_unfold frame_def attempt_events_3)
  have op: "write_opcode (WriteData (p_deviceName s) frame) = Some c"
    by (simp add: frame_def createHIDFrame_None_Cons)
  show "fst (sendInitCommand usb c s) = True"
    unfolding sendInitCommand_def Let_def frame_def [symmetric] w
    using assms(2) by (simp add: split_beta)
  show "written_opcodes (drop (length (trace s)) (trace (snd (sendInitCommand usb c s)))) = [c]"
    unfolding sendInitCommand_def Let_def frame_def [symmetric] w
    using assms(2) op by (simp add: split_beta readInitResponse_events)
qed

subsection \<open>Handshake and connection: proofs and claims\<close>

lemmas handshake_defs =
  connect_def connect_body_def connectToDevice_def initCommunication_def
  protocol_initCommunication_def executeInitSequence_def sendWakeUpCommand_def
  sendInitCommand_def readInitResponse_def verifyConnection_def
  write_attempts.simps init_loop.simps INIT_SEQUENCE_def maxAttempts_def

lemma usb_refusing_05_writes:
  "writeData usb_refusing_05 tr name (createHIDFrame 5 None) = Inr (- 1)"
  "c \<noteq> 5 \<Longrightarrow> writeData usb_refusing_05 tr name (createHIDFrame c None) = Inr 64"
  "writeData usb_refusing_05 tr name [4, 0] = Inr 64"
  "openDevice usb_refusing_05 tr name = Inr True"
  "claimInterface usb_refusing_05 tr name i = Inr True"
  "readData usb_refusing_05 tr name t = Inr (Some [])"
  by (simp_all add: usb_refusing_05_def usb_ok_def createHIDFrame_None_Cons)

lemma usb_ok_calls:
  "writeData usb_ok tr name bytes = Inr 64"
  "openDevice usb_ok tr name = Inr True"
  "claimInterface usb_ok tr name i = Inr True"
  "readData usb_ok tr name t = Inr (Some [])"
  "closeDevice usb_ok tr name = Inr True"
  by (simp_all add: usb_ok_def)

lemma connect_refusing_05:
  "connect usb_refusing_05 example_device False new_session =
     (Inl (InitCommandFailed 2 5),
      \<lparr>deviceInfo = Some example_device, isConnected = False,
       p_deviceName = Some ''/dev/bus/usb/001/002'', isInitialized = False,
       trace =
         [OpenDevice (Some ''/dev/bus/usb/001/002''),
          ClaimInterface (Some ''/dev/bus/usb/001/002'') 0,
          WriteData (Some ''/dev/bus/usb/001/002'') (createHIDFrame 0x00 None),
          Delay 500,
          ReadData (Some ''/dev/bus/usb/001/002'') 1000,
          Delay 60000,
          WriteData (Some ''/dev/bus/usb/001/002'') (createHIDFrame 0x04 None),
          ReadData (Some ''/dev/bus/usb/001/002'') 5000,
          Delay 1000,
          WriteData (Some ''/dev/bus/usb/001/002'') (createHIDFrame 0x05 None),
          Delay 1000,
          WriteData (Some ''/dev/bus/usb/001/002'') (createHIDFrame 0x05 None),
          Delay 1000,
          WriteData (Some ''/dev/bus/usb/001/002'') (createHIDFrame 0x05 None)]\<rparr>)"
  by (simp add: handshake_defs session_defs usb_refusing_05_writes new_session_def
      TIMEOUT_def RETRY_DELAY_def Let_def)

lemma executeInitSequence_usb_ok:
  "fst (executeInitSequence usb_ok ready_session) = Inr True"
  "written_opcodes (trace (snd (executeInitSequence usb_ok ready_session))) = [0, 4, 5, 0x15, 1, 0]"
  by (simp_all add: handshake_defs session_defs usb_ok_calls ready_session_def new_session_def
      createHIDFrame_None_Cons Let_def)


lemma sendInitCommand_three_negative:
  assumes "writeData usb (trace s) (p_deviceName s) (createHIDFrame c None) = Inr n1 \<and> n1 < 0
        \<and> writeData usb
              (trace s @ [WriteData (p_deviceName s) (createHIDFrame c None), Delay RETRY_DELAY])
              (p_deviceName s) (createHIDFrame c None) = Inr n2 \<and> n2 < 0
        \<and> writeData usb
              (trace s @ [WriteData (p_deviceName s) (createHIDFrame c None), Delay RETRY_DELAY,
                          WriteData (p_deviceName s) (createHIDFrame c None), Delay RETRY_DELAY])
              (p_deviceName s) (createHIDFrame c None) = Inr n3 \<and> n3 < 0"
  shows "sendInitCommand usb c s
         = (False, s\<lparr>trace := trace s @ attempt_events (p_deviceName s) (createHIDFrame c None) 3\<rparr>)"
proof -
  define frame where "frame = createHIDFrame c None"
  have "write_attempts usb frame 0 (- 1) s
        = (Inr n3, s\<lparr>trace := trace s @ attempt_events (p_deviceName s) frame 3\<rparr>)"
    using assms by (simp add: write_attempts_unfold frame_def)
  then show ?thesis
    unfolding sendInitCommand_def Let_def frame_def [symmetric]
    using assms by simp
qed

lemma sendInitCommand_exact:
  "sendInitCommand usb c s =
     (let frame = createHIDFrame c None;
          name = p_deviceName s;
          answer = (\<lambda>k. writeData usb
                          (trace s @ concat (replicate k [WriteData name frame, Delay RETRY_DELAY]))
                          name frame);
          result = (\<lambda>k ok.
                     (ok, s\<lparr>trace := trace s @ attempt_events name frame k
                                  @ (if ok \<and> c \<noteq> 0x00 then [ReadData name TIMEOUT] else [])\<rparr>))
      in case answer 0 of
           Inl e \<Rightarrow> result 1 False
         | Inr n1 \<Rightarrow>
             if 0 \<le> n1 then result 1 True
             else (case answer 1 of
                     Inl e \<Rightarrow> result 2 False
                   | Inr n2 \<Rightarrow>
                       if 0 \<le> n2 then result 2 True
                       else (case answer 2 of
                               Inl e \<Rightarrow> result 3 False
                             | Inr n3 \<Rightarrow> result 3 (0 \<le> n3))))"
proof -
  define frame where "frame = createHIDFrame c None"
  show ?thesis
    unfolding sendInitCommand_def Let_def frame_def [symmetric]
    by (simp add: write_attempts_unfold split_beta readInitResponse_events attempt_events_3
        numeral_2_eq_2 split: sum.splits)
qed

lemma sendWakeUpCommand_exact:
  "snd (sendWakeUpCommand usb s) =
     s\<lparr>trace := trace s @
        (case writeData usb (trace s) (p_deviceName s) (createHIDFrame 0x00 None) of
           Inl e \<Rightarrow> [WriteData (p_deviceName s) (createHIDFrame 0x00 None)]
         | Inr n \<Rightarrow> [WriteData (p_deviceName s) (createHIDFrame 0x00 None), Delay 500,
                     ReadData (p_deviceName s) 1000])\<rparr>"
  by (simp add: sendWakeUpCommand_def Let_def session_defs split: sum.splits)

lemma init_loop_end: "init_loop usb 5 s = (Inr True, s)"
  by (simp add: init_loop.simps [of usb 5 s] INIT_SEQUENCE_def)

lemma executeInitSequence_unrolled:
  "executeInitSequence usb s =
     (let s0 = delay 60000 (snd (sendWakeUpCommand usb s));
          r1 = sendInitCommand usb 0x04 s0;
          r2 = sendInitCommand usb 0x05 (delay RETRY_DELAY (snd r1));
          r3 = sendInitCommand usb 0x15 (delay RETRY_DELAY (snd r2));
          r4 = sendInitCommand usb 0x01 (delay RETRY_DELAY (snd r3));
          r5 = sendInitCommand usb 0x00 (delay RETRY_DELAY (snd r4))
      in if \<not> fst r1 then (Inl (InitCommandFailed 1 0x04), snd r1)
         else if \<not> fst r2 then (Inl (InitCommandFailed 2 0x05), snd r2)
         else if \<not> fst r3 then (Inl (InitCommandFailed 3 0x15), snd r3)
         else if \<not> fst r4 then (Inl (InitCommandFailed 4 0x01), snd r4)
         else if \<not> fst r5 then (Inl (InitCommandFailed 5 0x00), snd r5)
         else (Inr True, delay RETRY_DELAY (snd r5)))"
proof -
  have l0: "init_loop usb 0 t =
     (if \<not> fst (sendInitCommand usb 0x04 t)
      then (Inl (InitCommandFailed 1 0x04), snd (sendInitCommand usb 0x04 t))
      else init_loop usb 1 (delay RETRY_DELAY (snd (sendInitCommand usb 0x04 t))))" for t
    by (subst init_loop.simps)
      (simp add: INIT_SEQUENCE_def split_beta Let_def numeral_2_eq_2 [symmetric])
  have l1: "init_loop usb 1 t =
     (if \<not> fst (sendInitCommand usb 0x05 t)
      then (Inl (InitCommandFailed 2 0x05), snd (sendInitCommand usb 0x05 t))
      else init_loop usb 2 (delay RETRY_DELAY (snd (sendInitCommand usb 0x05 t))))" for t
    by (subst init_loop.simps)
      (simp add: INIT_SEQUENCE_def split_beta Let_def numeral_2_eq_2 [symmetric])
  have l2: "init_loop usb 2 t =
     (if \<not> fst (sendInitCommand usb 0x15 t)
      then (Inl (InitCommandFailed 3 0x15), snd (sendInitCommand usb 0x15 t))
      else init_loop usb 3 (delay RETRY_DELAY (snd (sendInitCommand usb 0x15 t))))" for t
    by (subst init_loop.simps)
      (simp add: INIT_SEQUENCE_def split_beta Let_def numeral_2_eq_2 [symmetric])
  have l3: "init_loop usb 3 t =
     (if \<not> fst (sendInitCommand usb 0x01 t)
      then (Inl (InitCommandFailed 4 0x01), snd (sendInitCommand usb 0x01 t))
      else init_loop usb 4 (delay RETRY_DELAY (snd (sendInitCommand usb 0x01 t))))" for t
    by (subst init_loop.simps)
      (simp add: INIT_SEQUENCE_def split_beta Let_def numeral_2_eq_2 [symmetric])
  have l4: "init_loop usb 4 t =
     (if \<not> fst (sendInitCommand usb 0x00 t)
      then (Inl (InitCommandFailed 5 0x00), snd (sendInitCommand usb 0x00 t))
      else (Inr True, delay RETRY_DELAY (snd (sendInitCommand usb 0x00 t))))" for t
    by (subst init_loop.simps)
      (simp add: init_loop_end INIT_SEQUENCE_def split_beta Let_def numeral_2_eq_2 [symmetric])
  have "executeInitSequence usb s = init_loop usb 0 (delay 60000 (snd (sendWakeUpCommand usb s)))"
    by (simp add: executeInitSequence_def split_beta Let_def)
  then show ?thesis
    unfolding Let_def by (simp only: l0 l1 l2 l3 l4 if_distrib if_True if_False split: if_splits)
qed

lemma init_handshake_cases:
  "(\<exists>ks evs. snd (executeInitSequence usb s) = s\<lparr>trace := trace s @ evs\<rparr>
       \<and> length ks \<le> 5 \<and> attempts_ok ks
       \<and> written_opcodes evs = 0x00 # repeated ks [0x04, 0x05, 0x15, 0x01, 0x00]
       \<and> (fst (executeInitSequence usb s) = Inr True \<longrightarrow> length ks = 5))
   \<and> ((\<exists>n\<ge>0. writeData usb (trace s) (p_deviceName s) (createHIDFrame c None) = Inr n) \<longrightarrow>
         fst (sendInitCommand usb c s) = True
         \<and> written_opcodes (drop (length (trace s)) (trace (snd (sendInitCommand usb c s)))) = [c])
   \<and> (writeData usb (trace s) (p_deviceName s) (createHIDFrame c None) = Inr n1 \<and> n1 < 0
        \<and> writeData usb
              (trace s @ [WriteData (p_deviceName s) (createHIDFrame c None), Delay RETRY_DELAY])
              (p_deviceName s) (createHIDFrame c None) = Inr n2 \<and> n2 < 0
        \<and> writeData usb
              (trace s @ [WriteData (p_deviceName s) (createHIDFrame c None), Delay RETRY_DELAY,
                          WriteData (p_deviceName s) (createHIDFrame c None), Delay RETRY_DELAY])
              (p_deviceName s) (createHIDFrame c None) = Inr n3 \<and> n3 < 0 \<longrightarrow>
         sendInitCommand usb c s =
           (False,
            s\<lparr>trace := trace s @
               [WriteData (p_deviceName s) (createHIDFrame c None), Delay RETRY_DELAY,
                WriteData (p_deviceName s) (createHIDFrame c None), Delay RETRY_DELAY,
                WriteData (p_deviceName s) (createHIDFrame c None)]\<rparr>))
   \<and> (i < 5 \<and> fst (sendInitCommand usb ([0x04, 0x05, 0x15, 0x01, 0x00] ! i) s) = False \<longrightarrow>
         fst (init_loop usb i s) = Inl (InitCommandFailed (i + 1) ([0x04, 0x05, 0x15, 0x01, 0x00] ! i)))
   \<and> ((\<forall>tr name. openDevice usb tr name = Inr True)
        \<and> (\<forall>tr name i. claimInterface usb tr name i = Inr True)
        \<and> (\<forall>tr. \<exists>n<0. writeData usb tr (Some (deviceName info)) (createHIDFrame c None) = Inr n)
        \<and> c \<in> set [0x04, 0x05, 0x15, 0x01, 0x00] \<longrightarrow>
         (\<exists>j c'. fst (connect usb info cb s0) = Inl (InitCommandFailed j c')
            \<and> 1 \<le> j \<and> j \<le> 5 \<and> c' = [0x04, 0x05, 0x15, 0x01, 0x00] ! (j - 1))
         \<and> \<not> isConnected (snd (connect usb info cb s0))
         \<and> \<not> isInitialized (snd (connect usb info cb s0)))"
proof (intro conjI impI)
  show "\<exists>ks evs. snd (executeInitSequence usb s) = s\<lparr>trace := trace s @ evs\<rparr>
       \<and> length ks \<le> 5 \<and> attempts_ok ks
       \<and> written_opcodes evs = 0x00 # repeated ks [0x04, 0x05, 0x15, 0x01, 0x00]
       \<and> (fst (executeInitSequence usb s) = Inr True \<longrightarrow> length ks = 5)"
  proof -
    have len: "length INIT_SEQUENCE = 5" by (simp add: INIT_SEQUENCE_def)
    have "\<exists>ks evs. snd (executeInitSequence usb s) = s\<lparr>trace := trace s @ evs\<rparr>
       \<and> length ks \<le> 5 \<and> attempts_ok ks
       \<and> written_opcodes evs = 0 # repeated ks INIT_SEQUENCE
       \<and> (fst (executeInitSequence usb s) = Inr True \<longrightarrow> length ks = 5)"
      using executeInitSequence_events [of usb s] unfolding len by blast
    then show ?thesis unfolding INIT_SEQUENCE_def .
  qed
next
  assume "\<exists>n\<ge>0. writeData usb (trace s) (p_deviceName s) (createHIDFrame c None) = Inr n"
  then obtain n where n: "0 \<le> n"
    "writeData usb (trace s) (p_deviceName s) (createHIDFrame c None) = Inr n"
    by blast
  show "fst (sendInitCommand usb c s) = True"
    by (rule sendInitCommand_first_write_ok(1) [OF n(2) n(1)])
  show "written_opcodes (drop (length (trace s)) (trace (snd (sendInitCommand usb c s)))) = [c]"
    by (rule sendInitCommand_first_write_ok(2) [OF n(2) n(1)])
next
  assume "writeData usb (trace s) (p_deviceName s) (createHIDFrame c None) = Inr n1 \<and> n1 < 0
        \<and> writeData usb
              (trace s @ [WriteData (p_deviceName s) (createHIDFrame c None), Delay RETRY_DELAY])
              (p_deviceName s) (createHIDFrame c None) = Inr n2 \<and> n2 < 0
        \<and> writeData usb
              (trace s @ [WriteData (p_deviceName s) (createHIDFrame c None), Delay RETRY_DELAY,
                          WriteData (p_deviceName s) (createHIDFrame c None), Delay RETRY_DELAY])
              (p_deviceName s) (createHIDFrame c None) = Inr n3 \<and> n3 < 0"
  from sendInitCommand_three_negative [OF this]
  show "sendInitCommand usb c s =
           (False,
            s\<lparr>trace := trace s @
               [WriteData (p_deviceName s) (createHIDFrame c None), Delay RETRY_DELAY,
                WriteData (p_deviceName s) (createHIDFrame c None), Delay RETRY_DELAY,
                WriteData (p_deviceName s) (createHIDFrame c None)]\<rparr>)"
    by (simp only: attempt_events_3)
next
  assume "i < 5 \<and> fst (sendInitCommand usb ([0x04, 0x05, 0x15, 0x01, 0x00] ! i) s) = False"
  then show "fst (init_loop usb i s)
             = Inl (InitCommandFailed (i + 1) ([0x04, 0x05, 0x15, 0x01, 0x00] ! i))"
    by (simp add: init_loop.simps [of usb i s] INIT_SEQUENCE_def split_beta Let_def)
next
  assume a: "(\<forall>tr name. openDevice usb tr name = Inr True)
        \<and> (\<forall>tr name i. claimInterface usb tr name i = Inr True)
        \<and> (\<forall>tr. \<exists>n<0. writeData usb tr (Some (deviceName info)) (createHIDFrame c None) = Inr n)
        \<and> c \<in> set [0x04, 0x05, 0x15, 0x01, 0x00]"
  then have c: "c \<in> set INIT_SEQUENCE" by (simp add: INIT_SEQUENCE_def)
  from a have o: "\<forall>tr name. openDevice usb tr name = Inr True"
    and cl: "\<forall>tr name i. claimInterface usb tr name i = Inr True"
    and w: "\<forall>tr. \<exists>n<0. writeData usb tr (Some (deviceName info)) (createHIDFrame c None) = Inr n"
    by blast+
  note f = connect_init_failure [OF o cl w c, of cb s0]
  have len: "length INIT_SEQUENCE = 5" by (simp add: INIT_SEQUENCE_def)
  from f have "\<exists>j c'. fst (connect usb info cb s0) = Inl (InitCommandFailed j c')
            \<and> 1 \<le> j \<and> j \<le> 5 \<and> c' = INIT_SEQUENCE ! (j - 1)"
    unfolding len by blast
  then show "\<exists>j c'. fst (connect usb info cb s0) = Inl (InitCommandFailed j c')
            \<and> 1 \<le> j \<and> j \<le> 5 \<and> c' = [0x04, 0x05, 0x15, 0x01, 0x00] ! (j - 1)"
    unfolding INIT_SEQUENCE_def .
  from f show "\<not> isConnected (snd (connect usb info cb s0))" by blast
  from f show "\<not> isInitialized (snd (connect usb info cb s0))" by blast
qed



lemma connect_handshake_failure:
  "(let s1 = progress cb 1 4 (s0\<lparr>deviceInfo := Some info\<rparr>);
         s2 = (progress cb 2 4 (snd (connectToDevice usb info s1)))
                \<lparr>p_deviceName := Some (deviceName info)\<rparr>
     in fst (connectToDevice usb info s1) = Inr True
        \<and> fst (executeInitSequence usb s2) = Inl err \<longrightarrow>
        connect usb info cb s0 =
          (Inl err, (snd (executeInitSequence usb s2))\<lparr>isInitialized := False, isConnected := False\<rparr>))"
  by (simp add: Let_def connect_def connect_body_def initCommunication_def
      protocol_initCommunication_def split_beta)

lemma usb_retry_once_calls:
  "writeData usb_retry_once tr name bytes =
     (if take 2 (rev tr) = [Delay RETRY_DELAY, WriteData name bytes] then Inr 64 else Inr (- 1))"
  "openDevice usb_retry_once tr name = Inr True"
  "claimInterface usb_retry_once tr name i = Inr True"
  "readData usb_retry_once tr name t = Inr (Some [])"
  by (simp_all add: usb_retry_once_def usb_ok_def)

lemma usb_third_attempt_calls:
  "writeData usb_third_attempt tr name bytes =
     (if take 4 (rev tr) = [Delay RETRY_DELAY, WriteData name bytes,
                            Delay RETRY_DELAY, WriteData name bytes]
      then Inr 64 else Inr (- 1))"
  "openDevice usb_third_attempt tr name = Inr True"
  "claimInterface usb_third_attempt tr name i = Inr True"
  "readData usb_third_attempt tr name t = Inr (Some [])"
  by (simp_all add: usb_third_attempt_def usb_ok_def)

lemma executeInitSequence_usb_retry_once:
  "fst (executeInitSequence usb_retry_once ready_session) = Inr True"
  "written_opcodes (trace (snd (executeInitSequence usb_retry_once ready_session)))
     = [0, 4, 4, 5, 5, 0x15, 0x15, 1, 1, 0, 0]"
  by (simp_all add: handshake_defs session_defs usb_retry_once_calls ready_session_def
      new_session_def createHIDFrame_None_Cons Let_def)

lemma executeInitSequence_usb_third_attempt:
  "fst (executeInitSequence usb_third_attempt ready_session) = Inr True"
  "written_opcodes (trace (snd (executeInitSequence usb_third_attempt ready_session)))
     = [0, 4, 4, 4, 5, 5, 5, 0x15, 0x15, 0x15, 1, 1, 1, 0, 0, 0]"
  by (simp_all add: handshake_defs session_defs usb_third_attempt_calls ready_session_def
      new_session_def createHIDFrame_None_Cons Let_def)

text \<open>
  Claim C5.  \<^verbatim>\<open>executeInitSequence\<close> sends the wake-up frame (opcode 0x00), waits, and then
  sends the opcodes 0x04, 0x05, 0x15, 0x01, 0x00 in this order with \<open>RETRY_DELAY\<close> after
  each command that succeeded; it throws the error carrying the number and the code of
  the first command for which \<^verbatim>\<open>sendInitCommand\<close> returned false, and returns true when
  all five succeeded.  \<^verbatim>\<open>sendInitCommand\<close> writes the frame of its opcode at most three
  times, with \<open>RETRY_DELAY\<close> between two attempts: it stops at the first write whose count
  is not negative and then returns true (after reading the response, unless the opcode
  is 0x00), so that a retry that succeeds lets the command succeed and the handshake
  go on; it returns false when the third write is negative too, or when a write throws.
  The wake-up frame is written once, whatever the write returns.  When the device was
  opened and the handshake throws, \<^verbatim>\<open>connect\<close> throws the same error with
  \<^verbatim>\<open>isConnected\<close> and \<^verbatim>\<open>isInitialized\<close> false.

  In the words of the trace: after the wake-up frame the opcodes 0x04, 0x05, 0x15, 0x01,
  0x00 are written in this order, each one once, twice or three times, up to the first
  command that fails; when the handshake succeeds all five were written.  A command
  whose first write returns a count that is not negative is written once.  A command
  whose three writes return a negative count is written three times with \<open>RETRY_DELAY\<close>
  between the attempts, and \<^verbatim>\<open>sendInitCommand\<close> returns false; the loop then throws the
  error that carries the number and the code of this command.  On a device that opens
  and whose interface is claimed, a command among the five whose writes always return a
  negative count makes \<^verbatim>\<open>connect\<close> throw such an initialization error, with
  \<^verbatim>\<open>isConnected\<close> and \<^verbatim>\<open>isInitialized\<close> false.
\<close>

theorem init_handshake_sequence:
  "executeInitSequence usb s =
     (let s0 = delay 60000 (snd (sendWakeUpCommand usb s));
          r1 = sendInitCommand usb 0x04 s0;
          r2 = sendInitCommand usb 0x05 (delay RETRY_DELAY (snd r1));
          r3 = sendInitCommand usb 0x15 (delay RETRY_DELAY (snd r2));
          r4 = sendInitCommand usb 0x01 (delay RETRY_DELAY (snd r3));
          r5 = sendInitCommand usb 0x00 (delay RETRY_DELAY (snd r4))
      in if \<not> fst r1 then (Inl (InitCommandFailed 1 0x04), snd r1)
         else if \<not> fst r2 then (Inl (InitCommandFailed 2 0x05), snd r2)
         else if \<not> fst r3 then (Inl (InitCommandFailed 3 0x15), snd r3)
         else if \<not> fst r4 then (Inl (InitCommandFailed 4 0x01), snd r4)
         else if \<not> fst r5 then (Inl (InitCommandFailed 5 0x00), snd r5)
         else (Inr True, delay RETRY_DELAY (snd r5)))
   \<and> sendInitCommand usb c s =
     (let frame = createHIDFrame c None;
          name = p_deviceName s;
          answer = (\<lambda>k. writeData usb
                          (trace s @ concat (replicate k [WriteData name frame, Delay RETRY_DELAY]))
                          name frame);
          result = (\<lambda>k ok.
                     (ok, s\<lparr>trace := trace s @ attempt_events name frame k
                                  @ (if ok \<and> c \<noteq> 0x00 then [ReadData name TIMEOUT] else [])\<rparr>))
      in case answer 0 of
           Inl e \<Rightarrow> result 1 False
         | Inr n1 \<Rightarrow>
             if 0 \<le> n1 then result 1 True
             else (case answer 1 of
                     Inl e \<Rightarrow> result 2 False
                   | Inr n2 \<Rightarrow>
                       if 0 \<le> n2 then result 2 True
                       else (case answer 2 of
                               Inl e \<Rightarrow> result 3 False
                             | Inr n3 \<Rightarrow> result 3 (0 \<le> n3))))
   \<and> snd (sendWakeUpCommand usb s) =
     s\<lparr>trace := trace s @
        (case writeData usb (trace s) (p_deviceName s) (createHIDFrame 0x00 None) of
           Inl e \<Rightarrow> [WriteData (p_deviceName s) (createHIDFrame 0x00 None)]
         | Inr n \<Rightarrow> [WriteData (p_deviceName s) (createHIDFrame 0x00 None), Delay 500,
                     ReadData (p_deviceName s) 1000])\<rparr>
   \<and> (let s1 = progress cb 1 4 (s0\<lparr>deviceInfo := Some info\<rparr>);
         s2 = (progress cb 2 4 (snd (connectToDevice usb info s1)))
                \<lparr>p_deviceName := Some (deviceName info)\<rparr>
     in fst (connectToDevice usb info s1) = Inr True
        \<and> fst (executeInitSequence usb s2) = Inl err \<longrightarrow>
        connect usb info cb s0 =
          (Inl err, (snd (executeInitSequence usb s2))\<lparr>isInitialized := False, isConnected := False\<rparr>))
   \<and> (\<exists>ks evs. snd (executeInitSequence usb s) = s\<lparr>trace := trace s @ evs\<rparr>
       \<and> length ks \<le> 5 \<and> attempts_ok ks
       \<and> written_opcodes evs = 0x00 # repeated ks [0x04, 0x05, 0x15, 0x01, 0x00]
       \<and> (fst (executeInitSequence usb s) = Inr True \<longrightarrow> length ks = 5))
   \<and> ((\<exists>n\<ge>0. writeData usb (trace s) (p_deviceName s) (createHIDFrame c None) = Inr n) \<longrightarrow>
         fst (sendInitCommand usb c s) = True
         \<and> written_opcodes (drop (length (trace s)) (trace (snd (sendInitCommand usb c s)))) = [c])
   \<and> (writeData usb (trace s) (p_deviceName s) (createHIDFrame c None) = Inr n1 \<and> n1 < 0
        \<and> writeData usb
              (trace s @ [WriteData (p_deviceName s) (createHIDFrame c None), Delay RETRY_DELAY])
              (p_deviceName s) (createHIDFrame c None) = Inr n2 \<and> n2 < 0
        \<and> writeData usb
              (trace s @ [WriteData (p_deviceName s) (createHIDFrame c None), Delay RETRY_DELAY,
                          WriteData (p_deviceName s) (createHIDFrame c None), Delay RETRY_DELAY])
              (p_deviceName s) (createHIDFrame c None) = Inr n3 \<and> n3 < 0 \<longrightarrow>
         sendInitCommand usb c s =
           (False,
            s\<lparr>trace := trace s @
               [WriteData (p_deviceName s) (createHIDFrame c None), Delay RETRY_DELAY,
                WriteData (p_deviceName s) (createHIDFrame c None), Delay RETRY_DELAY,
                WriteData (p_deviceName s) (createHIDFrame c None)]\<rparr>))
   \<and> (i < 5 \<and> fst (sendInitCommand usb ([0x04, 0x05, 0x15, 0x01, 0x00] ! i) s) = False \<longrightarrow>
         fst (init_loop usb i s) = Inl (InitCommandFailed (i + 1) ([0x04, 0x05, 0x15, 0x01, 0x00] ! i)))
   \<and> ((\<forall>tr name. openDevice usb tr name = Inr True)
        \<and> (\<forall>tr name i. claimInterface usb tr name i = Inr True)
        \<and> (\<forall>tr. \<exists>n<0. writeData usb tr (Some (deviceName info)) (createHIDFrame c None) = Inr n)
        \<and> c \<in> set [0x04, 0x05, 0x15, 0x01, 0x00] \<longrightarrow>
         (\<exists>j c'. fst (connect usb info cb s0) = Inl (InitCommandFailed j c')
            \<and> 1 \<le> j \<and> j \<le> 5 \<and> c' = [0x04, 0x05, 0x15, 0x01, 0x00] ! (j - 1))
         \<and> \<not> isConnected (snd (connect usb info cb s0))
         \<and> \<not> isInitialized (snd (connect usb info cb s0)))"
  by (rule conjI [OF executeInitSequence_unrolled
        conjI [OF sendInitCommand_exact
          conjI [OF sendWakeUpCommand_exact
            conjI [OF connect_handshake_failure init_handshake_cases]]]])

theorem init_handshake_sequence_witness:
  "fst (executeInitSequence usb_ok ready_session) = Inr True
   \<and> written_opcodes (trace (snd (executeInitSequence usb_ok ready_session)))
       = [0x00, 0x04, 0x05, 0x15, 0x01, 0x00]
   \<and> (\<exists>n\<ge>0. writeData usb_ok (trace ready_session) (p_deviceName ready_session)
                 (createHIDFrame 0x04 None) = Inr n)
   \<and> fst (sendInitCommand usb_ok 0x04 ready_session) = True
   \<and> writeData usb_refusing_05 (trace ready_session) (p_deviceName ready_session)
         (createHIDFrame 0x05 None) = Inr (- 1)
   \<and> writeData usb_refusing_05
         (trace ready_session
          @ [WriteData (p_deviceName ready_session) (createHIDFrame 0x05 None), Delay RETRY_DELAY])
         (p_deviceName ready_session) (createHIDFrame 0x05 None) = Inr (- 1)
   \<and> writeData usb_refusing_05
         (trace ready_session
          @ [WriteData (p_deviceName ready_session) (createHIDFrame 0x05 None), Delay RETRY_DELAY,
             WriteData (p_deviceName ready_session) (createHIDFrame 0x05 None), Delay RETRY_DELAY])
         (p_deviceName ready_session) (createHIDFrame 0x05 None) = Inr (- 1)
   \<and> sendInitCommand usb_refusing_05 0x05 ready_session =
        (False,
         ready_session\<lparr>trace := trace ready_session @
           [WriteData (p_deviceName ready_session) (createHIDFrame 0x05 None), Delay RETRY_DELAY,
            WriteData (p_deviceName ready_session) (createHIDFrame 0x05 None), Delay RETRY_DELAY,
            WriteData (p_deviceName ready_session) (createHIDFrame 0x05 None)]\<rparr>)
   \<and> fst (init_loop usb_refusing_05 1 ready_session) = Inl (InitCommandFailed 2 0x05)
   \<and> (\<forall>tr name. openDevice usb_refusing_05 tr name = Inr True)
   \<and> (\<forall>tr name i. claimInterface usb_refusing_05 tr name i = Inr True)
   \<and> (\<forall>tr. \<exists>n<0. writeData usb_refusing_05 tr (Some (deviceName example_device))
                     (createHIDFrame 0x05 None) = Inr n)
   \<and> 0x05 \<in> set [0x04, 0x05, 0x15, 0x01, 0x00 :: nat]
   \<and> fst (connect usb_refusing_05 example_device False new_session) = Inl (InitCommandFailed 2 5)
   \<and> \<not> isConnected (snd (connect usb_refusing_05 example_device False new_session))
   \<and> \<not> isInitialized (snd (connect usb_refusing_05 example_device False new_session))
   \<and> writeData usb_retry_once (trace ready_session) (p_deviceName ready_session)
         (createHIDFrame 0x04 None) = Inr (- 1)
   \<and> writeData usb_retry_once
         (trace ready_session
          @ [WriteData (p_deviceName ready_session) (createHIDFrame 0x04 None), Delay RETRY_DELAY])
         (p_deviceName ready_session) (createHIDFrame 0x04 None) = Inr 64
   \<and> sendInitCommand usb_retry_once 0x04 ready_session =
        (True,
         ready_session\<lparr>trace := trace ready_session @
           [WriteData (p_deviceName ready_session) (createHIDFrame 0x04 None), Delay RETRY_DELAY,
            WriteData (p_deviceName ready_session) (createHIDFrame 0x04 None),
            ReadData (p_deviceName ready_session) TIMEOUT]\<rparr>)
   \<and> sendInitCommand usb_third_attempt 0x15 ready_session =
        (True,
         ready_session\<lparr>trace := trace ready_session @
           [WriteData (p_deviceName ready_session) (createHIDFrame 0x15 None), Delay RETRY_DELAY,
            WriteData (p_deviceName ready_session) (createHIDFrame 0x15 None), Delay RETRY_DELAY,
            WriteData (p_deviceName ready_session) (createHIDFrame 0x15 None),
            ReadData (p_deviceName ready_session) TIMEOUT]\<rparr>)
   \<and> fst (executeInitSequence usb_retry_once ready_session) = Inr True
   \<and> written_opcodes (trace (snd (executeInitSequence usb_retry_once ready_session)))
       = [0x00, 0x04, 0x04, 0x05, 0x05, 0x15, 0x15, 0x01, 0x01, 0x00, 0x00]
   \<and> fst (executeInitSequence usb_third_attempt ready_session) = Inr True
   \<and> written_opcodes (trace (snd (executeInitSequence usb_third_attempt ready_session)))
       = [0x00, 0x04, 0x04, 0x04, 0x05, 0x05, 0x05, 0x15, 0x15, 0x15, 0x01, 0x01, 0x01,
          0x00, 0x00, 0x00]
   \<and> fst (connectToDevice usb_refusing_05 example_device
             (progress False 1 4 (new_session\<lparr>deviceInfo := Some example_device\<rparr>))) = Inr True
   \<and> fst (executeInitSequence usb_refusing_05
             ((progress False 2 4
                 (snd (connectToDevice usb_refusing_05 example_device
                         (progress False 1 4 (new_session\<lparr>deviceInfo := Some example_device\<rparr>)))))
              \<lparr>p_deviceName := Some (deviceName example_device)\<rparr>))
       = Inl (InitCommandFailed 2 0x05)"
proof -
  have ok: "\<exists>n\<ge>0. writeData usb_ok (trace ready_session) (p_deviceName ready_session)
                 (createHIDFrame 0x04 None) = Inr n"
    by (simp add: usb_ok_calls)
  have neg: "\<forall>tr. \<exists>n<0. writeData usb_refusing_05 tr name (createHIDFrame 0x05 None) = Inr n"
    for name
    by (simp add: usb_refusing_05_writes)
  have o: "\<forall>tr name. openDevice usb_refusing_05 tr name = Inr True"
    and cl: "\<forall>tr name i. claimInterface usb_refusing_05 tr name i = Inr True"
    by (simp_all add: usb_refusing_05_writes)
  have mem: "0x05 \<in> set [0x04, 0x05, 0x15, 0x01, 0x00 :: nat]" by simp
  have w: "writeData usb_refusing_05 tr name (createHIDFrame 0x05 None) = Inr (- 1)" for tr name
    by (simp add: usb_refusing_05_writes)
  note good = init_handshake_sequence
                [where usb = usb_ok and s = ready_session and c = "0x04" and info = example_device
                   and cb = False and ?s0.0 = new_session,
                 THEN conjunct2, THEN conjunct2, THEN conjunct2, THEN conjunct2]
  note bad = init_handshake_sequence
               [where usb = usb_refusing_05 and s = ready_session and c = "0x05"
                  and ?n1.0 = "- 1" and ?n2.0 = "- 1" and ?n3.0 = "- 1" and i = 1
                  and info = example_device and cb = False and ?s0.0 = new_session,
                THEN conjunct2, THEN conjunct2, THEN conjunct2, THEN conjunct2]
  from good ok have first: "fst (sendInitCommand usb_ok 0x04 ready_session) = True"
    by blast
  have h3: "writeData usb_refusing_05 (trace ready_session) (p_deviceName ready_session)
              (createHIDFrame 0x05 None) = Inr (- 1) \<and> (- 1 :: int) < 0
        \<and> writeData usb_refusing_05
              (trace ready_session
               @ [WriteData (p_deviceName ready_session) (createHIDFrame 0x05 None),
                  Delay RETRY_DELAY])
              (p_deviceName ready_session) (createHIDFrame 0x05 None) = Inr (- 1)
        \<and> (- 1 :: int) < 0
        \<and> writeData usb_refusing_05
              (trace ready_session
               @ [WriteData (p_deviceName ready_session) (createHIDFrame 0x05 None),
                  Delay RETRY_DELAY,
                  WriteData (p_deviceName ready_session) (createHIDFrame 0x05 None),
                  Delay RETRY_DELAY])
              (p_deviceName ready_session) (createHIDFrame 0x05 None) = Inr (- 1)
        \<and> (- 1 :: int) < 0"
    by (simp add: w)
  from bad h3 have three: "sendInitCommand usb_refusing_05 0x05 ready_session =
        (False,
         ready_session\<lparr>trace := trace ready_session @
           [WriteData (p_deviceName ready_session) (createHIDFrame 0x05 None), Delay RETRY_DELAY,
            WriteData (p_deviceName ready_session) (createHIDFrame 0x05 None), Delay RETRY_DELAY,
            WriteData (p_deviceName ready_session) (createHIDFrame 0x05 None)]\<rparr>)"
    by blast
  from bad o cl neg mem
  have failed: "\<not> isConnected (snd (connect usb_refusing_05 example_device False new_session))"
    "\<not> isInitialized (snd (connect usb_refusing_05 example_device False new_session))"
    by blast+
  from three have "fst (sendInitCommand usb_refusing_05 ([0x04, 0x05, 0x15, 0x01, 0x00] ! 1)
                     ready_session) = False"
    by simp
  with bad have stop: "fst (init_loop usb_refusing_05 1 ready_session)
                       = Inl (InitCommandFailed 2 0x05)"
    by simp
  have opened: "fst (connectToDevice usb_refusing_05 example_device
             (progress False 1 4 (new_session\<lparr>deviceInfo := Some example_device\<rparr>))) = Inr True"
    using o cl by (rule connectToDevice_succeeds)
  have stopped: "fst (executeInitSequence usb_refusing_05
             ((progress False 2 4
                 (snd (connectToDevice usb_refusing_05 example_device
                         (progress False 1 4 (new_session\<lparr>deviceInfo := Some example_device\<rparr>)))))
              \<lparr>p_deviceName := Some (deviceName example_device)\<rparr>))
       = Inl (InitCommandFailed 2 0x05)"
    by (simp add: handshake_defs session_defs usb_refusing_05_writes new_session_def Let_def)
  note thrown = init_handshake_sequence
                  [where usb = usb_refusing_05 and info = example_device and cb = False
                     and ?s0.0 = new_session and err = "InitCommandFailed 2 0x05",
                   THEN conjunct2, THEN conjunct2, THEN conjunct2, THEN conjunct1]
  from thrown opened stopped
  have err: "fst (connect usb_refusing_05 example_device False new_session)
             = Inl (InitCommandFailed 2 5)"
    by (simp add: Let_def)
  have r1: "writeData usb_retry_once (trace ready_session) (p_deviceName ready_session)
         (createHIDFrame 0x04 None) = Inr (- 1)"
    and r2: "writeData usb_retry_once
         (trace ready_session
          @ [WriteData (p_deviceName ready_session) (createHIDFrame 0x04 None), Delay RETRY_DELAY])
         (p_deviceName ready_session) (createHIDFrame 0x04 None) = Inr 64"
    by (simp_all add: usb_retry_once_calls ready_session_def new_session_def)
  note once = init_handshake_sequence
                [where usb = usb_retry_once and c = "0x04" and s = ready_session,
                 THEN conjunct2, THEN conjunct1]
  from once r1 r2
  have retried: "sendInitCommand usb_retry_once 0x04 ready_session =
        (True,
         ready_session\<lparr>trace := trace ready_session @
           [WriteData (p_deviceName ready_session) (createHIDFrame 0x04 None), Delay RETRY_DELAY,
            WriteData (p_deviceName ready_session) (createHIDFrame 0x04 None),
            ReadData (p_deviceName ready_session) TIMEOUT]\<rparr>)"
    by (simp add: Let_def attempt_events_3)
  have t1: "writeData usb_third_attempt (trace ready_session) (p_deviceName ready_session)
         (createHIDFrame 0x15 None) = Inr (- 1)"
    and t2: "writeData usb_third_attempt
         (trace ready_session
          @ [WriteData (p_deviceName ready_session) (createHIDFrame 0x15 None), Delay RETRY_DELAY])
         (p_deviceName ready_session) (createHIDFrame 0x15 None) = Inr (- 1)"
    and t3: "writeData usb_third_attempt
         (trace ready_session
          @ [WriteData (p_deviceName ready_session) (createHIDFrame 0x15 None), Delay RETRY_DELAY,
             WriteData (p_deviceName ready_session) (createHIDFrame 0x15 None), Delay RETRY_DELAY])
         (p_deviceName ready_session) (createHIDFrame 0x15 None) = Inr 64"
    by (simp_all add: usb_third_attempt_calls ready_session_def new_session_def)
  note thrice = init_handshake_sequence
                  [where usb = usb_third_attempt and c = "0x15" and s = ready_session,
                   THEN conjunct2, THEN conjunct1]
  from thrice t1 t2 t3
  have third: "sendInitCommand usb_third_attempt 0x15 ready_session =
        (True,
         ready_session\<lparr>trace := trace ready_session @
           [WriteData (p_deviceName ready_session) (createHIDFrame 0x15 None), Delay RETRY_DELAY,
            WriteData (p_deviceName ready_session) (createHIDFrame 0x15 None), Delay RETRY_DELAY,
            WriteData (p_deviceName ready_session) (createHIDFrame 0x15 None),
            ReadData (p_deviceName ready_session) TIMEOUT]\<rparr>)"
    by (simp add: Let_def attempt_events_3 numeral_2_eq_2)
  from executeInitSequence_usb_ok ok first neg w three stop o cl mem err failed
    r1 r2 retried third executeInitSequence_usb_retry_once executeInitSequence_usb_third_attempt
    opened stopped
  show ?thesis by blast
qed

lemma disconnect_after:
  "deviceInfo s = Some info \<Longrightarrow>
   trace (snd (disconnect usb s)) = trace s @ [CloseDevice (Some (deviceName info))]"
  by (simp add: disconnect_def session_defs split_beta Let_def split: sum.splits)

text \<open>
  Claim C2, as amended.  \<^verbatim>\<open>connect\<close> never calls \<^verbatim>\<open>closeDevice\<close>, on any path.  When
  it fails it leaves \<^verbatim>\<open>isConnected\<close> false and \<^verbatim>\<open>deviceInfo\<close> set, so that the device
  is closed by the \<^verbatim>\<open>disconnect\<close> which the caller makes afterwards: that call issues
  exactly one \<^verbatim>\<open>closeDevice\<close>.
\<close>

theorem connect_leaves_device_open:
  "closes (trace (snd (connect usb info cb s))) = closes (trace s)
   \<and> deviceInfo (snd (connect usb info cb s)) = Some info
   \<and> (isl (fst (connect usb info cb s)) \<longrightarrow>
         \<not> isConnected (snd (connect usb info cb s))
         \<and> trace (snd (disconnect usb (snd (connect usb info cb s))))
             = trace (snd (connect usb info cb s)) @ [CloseDevice (Some (deviceName info))])"
  using connect_fields [of usb info cb s]
    disconnect_after [of "snd (connect usb info cb s)" info usb]
  by blast

theorem connect_leaves_device_open_witness:
  "isl (fst (connect usb_refusing_05 example_device False new_session))
   \<and> closes (trace (snd (connect usb_refusing_05 example_device False new_session))) = 0
   \<and> deviceInfo (snd (connect usb_refusing_05 example_device False new_session))
       = Some example_device
   \<and> \<not> isConnected (snd (connect usb_refusing_05 example_device False new_session))
   \<and> closes (trace (snd (disconnect usb_refusing_05
                 (snd (connect usb_refusing_05 example_device False new_session))))) = 1"
proof -
  have failed: "isl (fst (connect usb_refusing_05 example_device False new_session))"
    by (simp add: connect_refusing_05)
  have start: "closes (trace new_session) = 0"
    by (simp add: new_session_def)
  note t = connect_leaves_device_open [of usb_refusing_05 example_device False new_session]
  from t start
  have c0: "closes (trace (snd (connect usb_refusing_05 example_device False new_session))) = 0"
    by simp
  from t failed
  have "trace (snd (disconnect usb_refusing_05
                 (snd (connect usb_refusing_05 example_device False new_session))))
        = trace (snd (connect usb_refusing_05 example_device False new_session))
          @ [CloseDevice (Some (deviceName example_device))]"
    by blast
  then have c1: "closes (trace (snd (disconnect usb_refusing_05
                 (snd (connect usb_refusing_05 example_device False new_session))))) = 1"
    using c0 by simp
  from t failed c0 c1 show ?thesis by blast
qed

text \<open>
  Claim C2 as stated fails on a transport that refuses every write of the second
  command 0x05: \<^verbatim>\<open>connect\<close> throws the error of command 2 after three attempts, and
  the calls it has made contain no \<^verbatim>\<open>closeDevice\<close>, where the claim expects one.
\<close>

theorem connect_init_failure_counterexample:
  "connect usb_refusing_05 example_device False new_session =
     (Inl (InitCommandFailed 2 5),
      \<lparr>deviceInfo = Some example_device, isConnected = False,
       p_deviceName = Some ''/dev/bus/usb/001/002'', isInitialized = False,
       trace =
         [OpenDevice (Some ''/dev/bus/usb/001/002''),
          ClaimInterface (Some ''/dev/bus/usb/001/002'') 0,
          WriteData (Some ''/dev/bus/usb/001/002'') (createHIDFrame 0x00 None),
          Delay 500,
          ReadData (Some ''/dev/bus/usb/001/002'') 1000,
          Delay 60000,
          WriteData (Some ''/dev/bus/usb/001/002'') (createHIDFrame 0x04 None),
          ReadData (Some ''/dev/bus/usb/001/002'') 5000,
          Delay 1000,
          WriteData (Some ''/dev/bus/usb/001/002'') (createHIDFrame 0x05 None),
          Delay 1000,
          WriteData (Some ''/dev/bus/usb/001/002'') (createHIDFrame 0x05 None),
          Delay 1000,
          WriteData (Some ''/dev/bus/usb/001/002'') (createHIDFrame 0x05 None)]\<rparr>)
   \<and> closes (trace (snd (connect usb_refusing_05 example_device False new_session))) = 0"
proof
  show "closes (trace (snd (connect usb_refusing_05 example_device False new_session))) = 0"
    using connect_fields(2) [of usb_refusing_05 example_device False new_session]
    by (simp add: new_session_def)
qed (rule connect_refusing_05)

subsection \<open>Text requests and disconnection: proofs and claims\<close>

lemma printable_char:
  "32 \<le> b \<Longrightarrow> b \<le> 126 \<Longrightarrow> of_char (char_of (b :: int)) = b"
  by (simp add: of_char_of)

lemma requestTextResponse_text:
  assumes "fst (requestTextResponse usb command s) = Inr str"
  shows "\<exists>bytes. str = map char_of (filter (\<lambda>b. 32 \<le> b \<and> b \<le> 126) (bytes :: int list))"
  using assms
  by (auto simp: requestTextResponse_def session_defs split_beta Let_def
      split: if_splits sum.splits option.splits)

lemma filtered_printable:
  "list_all printable (map char_of (filter (\<lambda>b. 32 \<le> b \<and> b \<le> 126) (bytes :: int list)))"
  by (induction bytes) (simp_all add: printable_def of_char_of)

lemma printable_not_CR_LF:
  "list_all printable str \<Longrightarrow> CR \<notin> set str \<and> LF \<notin> set str"
  by (auto simp: list_all_iff printable_def CR_def LF_def)

lemma split_from_no_CR:
  "CR \<notin> set s \<Longrightarrow> split_from CRLF acc s = [rev acc @ s]"
  by (induction s arbitrary: acc) (auto simp: CRLF_def)

lemma js_split_no_CR: "CR \<notin> set s \<Longrightarrow> js_split CRLF s = [s]"
  by (simp add: js_split_def split_from_no_CR) (simp add: CRLF_def)

lemma match_response_no_CR: "CR \<notin> set s \<Longrightarrow> match_response s = None"
proof -
  assume "CR \<notin> set s"
  then have dw: "dropWhile (\<lambda>c. c \<noteq> CR) s = []"
    by (simp add: dropWhile_eq_Nil_conv) metis
  show ?thesis
    unfolding match_response_def Let_def dw
    by (simp add: strip_prefix_def CRLF_def)
qed

lemma parseTextResponse_no_CR: "CR \<notin> set s \<Longrightarrow> parseTextResponse s = None"
  by (simp add: parseTextResponse_def match_response_no_CR)

lemma set_js_trim: "set (js_trim s) \<subseteq> set s"
proof -
  have "set (js_trim s) = set (dropWhile is_js_space (rev (dropWhile is_js_space s)))"
    by (simp add: js_trim_def)
  also have "\<dots> \<subseteq> set (rev (dropWhile is_js_space s))"
    by (auto dest: set_dropWhileD)
  also have "\<dots> \<subseteq> set s"
    by (auto dest: set_dropWhileD)
  finally show ?thesis .
qed

lemma getResults_length:
  assumes "fst (getResults usb s) = Inr records"
  shows "length records \<le> 1"
proof -
  from assms obtain str where resp: "fst (requestTextResponse usb ''$result?'' s) = Inr str"
    and recs: "records = [] \<or>
               records = filter (\<lambda>line. js_trim line \<noteq> []) (js_split CRLF (js_trim str))"
    by (auto simp: getResults_def split_beta Let_def split: sum.splits if_splits)
  from requestTextResponse_text [OF resp] filtered_printable
  have "list_all printable str" by auto
  then have "CR \<notin> set str" by (simp add: printable_not_CR_LF)
  then have "CR \<notin> set (js_trim str)" using set_js_trim by blast
  then have "js_split CRLF (js_trim str) = [js_trim str]" by (rule js_split_no_CR)
  with recs show ?thesis by auto
qed


text \<open>
  Claim C10.  A string returned by \<^verbatim>\<open>requestTextResponse\<close> has only characters with
  codes 32 to 126, so neither CR nor LF: splitting it at CR LF gives the string itself,
  the expression of \<^verbatim>\<open>parseTextResponse\<close> cannot match it, and \<^verbatim>\<open>getResults\<close> returns
  at most one record.
\<close>

theorem requestTextResponse_printable:
  "(fst (requestTextResponse usb command s) = Inr str \<longrightarrow>
      list_all printable str \<and> CR \<notin> set str \<and> LF \<notin> set str
      \<and> js_split CRLF str = [str] \<and> parseTextResponse str = None)
   \<and> (fst (getResults usb s) = Inr records \<longrightarrow> length records \<le> 1)"
proof (intro conjI impI)
  assume r: "fst (requestTextResponse usb command s) = Inr str"
  from requestTextResponse_text [OF r] filtered_printable
  show p: "list_all printable str" by auto
  then show "CR \<notin> set str" and "LF \<notin> set str"
    by (simp_all add: printable_not_CR_LF)
  then show "js_split CRLF str = [str]" and "parseTextResponse str = None"
    by (simp_all add: js_split_no_CR parseTextResponse_no_CR)
next
  assume "fst (getResults usb s) = Inr records"
  then show "length records \<le> 1" by (rule getResults_length)
qed

lemma usb_two_lines_calls:
  "writeData usb_two_lines tr name bytes = Inr 64"
  "readData usb_two_lines tr name t = Inr (Some [55, 44, 49, 13, 10, 56, 44, 50])"
  by (simp_all add: usb_two_lines_def usb_ok_def)

lemma requestTextResponse_two_lines:
  "fst (requestTextResponse usb_two_lines ''$result?'' ready_session) = Inr ''7,18,2''"
  by (simp add: requestTextResponse_def session_defs usb_two_lines_calls ready_session_def
      new_session_def Let_def char_of_def)

lemma getResults_two_lines:
  "fst (getResults usb_two_lines ready_session) = Inr [''7,18,2'']"
proof -
  have t: "js_trim ''7,18,2'' = ''7,18,2''"
    by (simp add: js_trim_def is_js_space_def)
  have sp: "js_split CRLF ''7,18,2'' = [''7,18,2'']"
    by (rule js_split_no_CR) (simp add: CR_def)
  show ?thesis
    using requestTextResponse_two_lines
    by (simp add: getResults_def split_beta Let_def t sp split: sum.splits)
qed

theorem requestTextResponse_printable_witness:
  "fst (requestTextResponse usb_two_lines ''$result?'' ready_session) = Inr ''7,18,2''
   \<and> list_all printable ''7,18,2'' \<and> CR \<notin> set ''7,18,2'' \<and> LF \<notin> set ''7,18,2''
   \<and> js_split CRLF ''7,18,2'' = [''7,18,2''] \<and> parseTextResponse ''7,18,2'' = None
   \<and> fst (getResults usb_two_lines ready_session) = Inr [''7,18,2'']
   \<and> length [''7,18,2''] \<le> 1"
  using requestTextResponse_printable
          [of usb_two_lines "''$result?''" ready_session "''7,18,2''" "[''7,18,2'']"]
    requestTextResponse_two_lines getResults_two_lines
  by blast

lemma disconnect_resolved:
  assumes "\<forall>tr name. \<exists>b. closeDevice usb tr name = Inr b"
  shows "disconnect usb s =
           (Inr True,
            s\<lparr>isConnected := False, deviceInfo := None,
              trace := trace s @ (case deviceInfo s of None \<Rightarrow> []
                                  | Some info \<Rightarrow> [CloseDevice (Some (deviceName info))])\<rparr>)"
proof (cases "deviceInfo s")
  case None
  then show ?thesis by (simp add: disconnect_def)
next
  case (Some info)
  from assms obtain b where "closeDevice usb (trace s) (Some (deviceName info)) = Inr b"
    by blast
  with Some show ?thesis
    by (simp add: disconnect_def session_defs)
qed

lemma disconnect_trace:
  "trace (snd (disconnect usb s))
   = trace s @ (case deviceInfo s of None \<Rightarrow> []
                | Some info \<Rightarrow> [CloseDevice (Some (deviceName info))])"
  by (simp add: disconnect_def session_defs split_beta Let_def split: option.splits sum.splits)

text \<open>
  Claim C9, as amended.  When the \<^verbatim>\<open>closeDevice\<close> of the USB module is never
  rejected, two calls of \<^verbatim>\<open>disconnect\<close> in a row both return true, the second makes
  no call at all, and together they close the device at most once.  In every case a
  call of \<^verbatim>\<open>disconnect\<close> makes one \<^verbatim>\<open>closeDevice\<close> call when \<^verbatim>\<open>deviceInfo\<close> is set and
  none otherwise, and on a session without \<^verbatim>\<open>deviceInfo\<close> it returns true.  When
  \<^verbatim>\<open>closeDevice\<close> is rejected, \<^verbatim>\<open>disconnect\<close> throws the rejection and keeps
  \<^verbatim>\<open>deviceInfo\<close>.
\<close>

theorem disconnect_twice:
  "((\<forall>tr name. \<exists>b. closeDevice usb tr name = Inr b) \<longrightarrow>
      fst (disconnect usb s) = Inr True
      \<and> fst (disconnect usb (snd (disconnect usb s))) = Inr True
      \<and> trace (snd (disconnect usb (snd (disconnect usb s)))) = trace (snd (disconnect usb s))
      \<and> closes (trace (snd (disconnect usb (snd (disconnect usb s))))) \<le> closes (trace s) + 1
      \<and> deviceInfo (snd (disconnect usb s)) = None
      \<and> \<not> isConnected (snd (disconnect usb s)))
   \<and> trace (snd (disconnect usb s))
       = trace s @ (case deviceInfo s of None \<Rightarrow> []
                    | Some info \<Rightarrow> [CloseDevice (Some (deviceName info))])
   \<and> (deviceInfo s = None \<longrightarrow>
        disconnect usb s = (Inr True, s\<lparr>isConnected := False, deviceInfo := None\<rparr>))
   \<and> (deviceInfo s = Some info \<and> closeDevice usb (trace s) (Some (deviceName info)) = Inl e
        \<longrightarrow> disconnect usb s
            = (Inl e, s\<lparr>trace := trace s @ [CloseDevice (Some (deviceName info))]\<rparr>))"
proof (intro conjI impI)
  assume res: "\<forall>tr name. \<exists>b. closeDevice usb tr name = Inr b"
  note d1 = disconnect_resolved [OF res, of s]
  note d2 = disconnect_resolved [OF res, of "snd (disconnect usb s)"]
  show "fst (disconnect usb s) = Inr True" by (simp add: d1)
  show "fst (disconnect usb (snd (disconnect usb s))) = Inr True" by (simp add: d2)
  have none: "deviceInfo (snd (disconnect usb s)) = None" by (simp add: d1)
  then show "deviceInfo (snd (disconnect usb s)) = None" .
  show "\<not> isConnected (snd (disconnect usb s))" by (simp add: d1)
  show same: "trace (snd (disconnect usb (snd (disconnect usb s)))) = trace (snd (disconnect usb s))"
    unfolding disconnect_trace [of usb "snd (disconnect usb s)"] none by simp
  have "closes (trace (snd (disconnect usb s))) \<le> closes (trace s) + 1"
    unfolding disconnect_trace [of usb s] by (cases "deviceInfo s") simp_all
  then show "closes (trace (snd (disconnect usb (snd (disconnect usb s))))) \<le> closes (trace s) + 1"
    unfolding same .
next
  show "trace (snd (disconnect usb s))
       = trace s @ (case deviceInfo s of None \<Rightarrow> []
                    | Some info \<Rightarrow> [CloseDevice (Some (deviceName info))])"
    by (rule disconnect_trace)
next
  assume "deviceInfo s = None"
  then show "disconnect usb s = (Inr True, s\<lparr>isConnected := False, deviceInfo := None\<rparr>)"
    by (simp add: disconnect_def)
next
  assume "deviceInfo s = Some info \<and> closeDevice usb (trace s) (Some (deviceName info)) = Inl e"
  then show "disconnect usb s
            = (Inl e, s\<lparr>trace := trace s @ [CloseDevice (Some (deviceName info))]\<rparr>)"
    by (simp add: disconnect_def session_defs)
qed

lemma usb_close_rejected_calls:
  "closeDevice usb_close_rejected tr name = Inl Rejected"
  by (simp add: usb_close_rejected_def)

theorem disconnect_twice_witness:
  "(\<forall>tr name. \<exists>b. closeDevice usb_ok tr name = Inr b)
   \<and> fst (disconnect usb_ok ready_session) = Inr True
   \<and> fst (disconnect usb_ok (snd (disconnect usb_ok ready_session))) = Inr True
   \<and> trace (snd (disconnect usb_ok ready_session))
       = [CloseDevice (Some ''/dev/bus/usb/001/002'')]
   \<and> trace (snd (disconnect usb_ok (snd (disconnect usb_ok ready_session))))
       = [CloseDevice (Some ''/dev/bus/usb/001/002'')]
   \<and> deviceInfo new_session = None
   \<and> disconnect usb_ok new_session = (Inr True, new_session)
   \<and> deviceInfo ready_session = Some example_device
   \<and> closeDevice usb_close_rejected (trace ready_session) (Some (deviceName example_device))
       = Inl Rejected
   \<and> disconnect usb_close_rejected ready_session
       = (Inl Rejected, ready_session\<lparr>trace := [CloseDevice (Some ''/dev/bus/usb/001/002'')]\<rparr>)"
proof -
  have res: "\<forall>tr name. \<exists>b. closeDevice usb_ok tr name = Inr b"
    by (auto simp: usb_ok_def)
  have di: "deviceInfo ready_session = Some example_device" "trace ready_session = []"
    "deviceInfo new_session = None"
    by (simp_all add: ready_session_def new_session_def)
  have rej: "closeDevice usb_close_rejected (trace ready_session)
               (Some (deviceName example_device)) = Inl Rejected"
    by (simp add: usb_close_rejected_def)
  note ok = disconnect_twice [of usb_ok ready_session example_device Rejected]
  note fresh = disconnect_twice [of usb_ok new_session example_device Rejected]
  note bad = disconnect_twice [of usb_close_rejected ready_session example_device Rejected]
  from ok res have a: "fst (disconnect usb_ok ready_session) = Inr True"
    "fst (disconnect usb_ok (snd (disconnect usb_ok ready_session))) = Inr True"
    "trace (snd (disconnect usb_ok (snd (disconnect usb_ok ready_session))))
     = trace (snd (disconnect usb_ok ready_session))"
    by blast+
  from ok have b: "trace (snd (disconnect usb_ok ready_session))
       = [CloseDevice (Some ''/dev/bus/usb/001/002'')]"
    by (simp add: di)
  from fresh di(3) have c: "disconnect usb_ok new_session = (Inr True, new_session)"
    by (simp add: new_session_def)
  from bad di(1) rej have d: "disconnect usb_close_rejected ready_session
       = (Inl Rejected, ready_session\<lparr>trace := [CloseDevice (Some ''/dev/bus/usb/001/002'')]\<rparr>)"
    by (simp add: di(2))
  from res a b c d di rej show ?thesis by simp
qed

text \<open>
  Claim C9 as stated fails on a USB module whose \<^verbatim>\<open>closeDevice\<close> is rejected: the
  first \<^verbatim>\<open>disconnect\<close> throws, and the second calls \<^verbatim>\<open>closeDevice\<close> again.
\<close>

theorem disconnect_rejected_counterexample:
  "fst (disconnect usb_close_rejected ready_session) = Inl Rejected
   \<and> trace (snd (disconnect usb_close_rejected
                 (snd (disconnect usb_close_rejected ready_session))))
       = [CloseDevice (Some ''/dev/bus/usb/001/002''),
          CloseDevice (Some ''/dev/bus/usb/001/002'')]"
  by (simp add: disconnect_def session_defs usb_close_rejected_calls ready_session_def
      new_session_def)

end
